theory Spec2Isabelle
  imports Complex_Main
begin

section \<open>Python values\<close>

text \<open>
  The tools of \<^verbatim>\<open>src/tools/string.py\<close> and \<^verbatim>\<open>src/tools/list.py\<close> take and return
  dynamically typed Python values. A \<^verbatim>\<open>str\<close> is a sequence of Unicode code points (a lone
  surrogate is a legal element of a \<^verbatim>\<open>str\<close>), a \<^verbatim>\<open>bytes\<close> object a sequence of 8-bit
  characters. ASCII literals of the source are written as HOL strings and turned into code
  points by \<open>u\<close>.
\<close>

type_synonym pystr = "nat list"
type_synonym pybytes = "string"

definition u :: "string \<Rightarrow> pystr" where
  "u s = map of_char s"

text \<open>
  A Python \<^verbatim>\<open>float\<close> is represented by the text \<^verbatim>\<open>repr()\<close> prints for it (\<^verbatim>\<open>1.5\<close>,
  \<^verbatim>\<open>-0.0\<close>, \<^verbatim>\<open>1e+16\<close>, \<^verbatim>\<open>inf\<close>, \<^verbatim>\<open>nan\<close>): the text determines the float, and the
  tools never compute with a float, they print it, hand it to the connection, or negate it.
  Negation flips the sign, which the text shows as a leading minus; \<^verbatim>\<open>nan\<close> prints without
  a sign.
\<close>

datatype pyfloat = PyFloat string

fun float_repr :: "pyfloat \<Rightarrow> string" where
  "float_repr (PyFloat t) = t"

fun float_neg :: "pyfloat \<Rightarrow> pyfloat" where
  "float_neg (PyFloat t) =
     (if t = ''nan'' then PyFloat t
      else case t of
             [] \<Rightarrow> PyFloat t
           | c # r \<Rightarrow> if c = CHR ''-'' then PyFloat r else PyFloat (CHR ''-'' # t))"

fun float_is_zero :: "pyfloat \<Rightarrow> bool" where
  "float_is_zero (PyFloat t) = (t = ''0.0'' \<or> t = ''-0.0'')"

datatype pyval =
    PNone
  | PBool bool
  | PInt int
  | PFloat pyfloat
  | PStr pystr
  | PBytes pybytes
  | PList "pyval list"
  | PDict "(pyval \<times> pyval) list"

text \<open>The exceptions that occur: \<^verbatim>\<open>redis.exceptions.RedisError\<close> (with all its
  subclasses, carrying \<^verbatim>\<open>str(e)\<close>), the \<^verbatim>\<open>TypeError\<close> of \<^verbatim>\<open>json.dumps\<close>, the two codec
  errors, and any other exception.\<close>

datatype exn =
    RedisError pystr
  | TypeError pystr
  | UnicodeEncodeError
  | UnicodeDecodeError
  | OtherError pystr

fun isinstance_bytes :: "pyval \<Rightarrow> bool" where
  "isinstance_bytes (PBytes b) = True"
| "isinstance_bytes v = False"

fun isinstance_dict :: "pyval \<Rightarrow> bool" where
  "isinstance_dict (PDict d) = True"
| "isinstance_dict v = False"

fun type_name :: "pyval \<Rightarrow> string" where
  "type_name PNone = ''NoneType''"
| "type_name (PBool b) = ''bool''"
| "type_name (PInt i) = ''int''"
| "type_name (PFloat f) = ''float''"
| "type_name (PStr s) = ''str''"
| "type_name (PBytes b) = ''bytes''"
| "type_name (PList xs) = ''list''"
| "type_name (PDict d) = ''dict''"

text \<open>Truth value testing, as \<^verbatim>\<open>if expiration:\<close>, \<^verbatim>\<open>value if value else ...\<close> and
  \<^verbatim>\<open>if not values:\<close> do it.\<close>

fun truthy :: "pyval \<Rightarrow> bool" where
  "truthy PNone = False"
| "truthy (PBool b) = b"
| "truthy (PInt i) = (i \<noteq> 0)"
| "truthy (PFloat f) = (\<not> float_is_zero f)"
| "truthy (PStr s) = (s \<noteq> [])"
| "truthy (PBytes b) = (b \<noteq> [])"
| "truthy (PList xs) = (xs \<noteq> [])"
| "truthy (PDict d) = (d \<noteq> [])"

text \<open>The optional \<^verbatim>\<open>int\<close> parameters \<^verbatim>\<open>expiration\<close> and \<^verbatim>\<open>expire\<close> default to
  \<^verbatim>\<open>None\<close>; \<open>ttl_of\<close> gives the value when the test \<^verbatim>\<open>if expiration:\<close> succeeds.\<close>

fun ttl_of :: "int option \<Rightarrow> int option" where
  "ttl_of None = None"
| "ttl_of (Some n) = (if n = 0 then None else Some n)"

subsection \<open>Printing numbers\<close>

definition digit_char :: "nat \<Rightarrow> char" where
  "digit_char d = ''0123456789'' ! d"

fun str_nat :: "nat \<Rightarrow> string" where
  "str_nat n = (if n < 10 then [digit_char n] else str_nat (n div 10) @ [digit_char (n mod 10)])"

definition str_int :: "int \<Rightarrow> string" where
  "str_int i = (if i < 0 then CHR ''-'' # str_nat (nat (- i)) else str_nat (nat i))"

fun hex_digits :: "nat \<Rightarrow> nat \<Rightarrow> string" where
  "hex_digits 0 n = []"
| "hex_digits (Suc k) n = hex_digits k (n div 16) @ [''0123456789abcdef'' ! (n mod 16)]"

fun join :: "'a list \<Rightarrow> 'a list list \<Rightarrow> 'a list" where
  "join sep [] = []"
| "join sep [x] = x"
| "join sep (x # y # ys) = x @ sep @ join sep (y # ys)"

subsection \<open>The UTF-8 codec\<close>

text \<open>
  \<^verbatim>\<open>str.encode("utf-8")\<close> fails on a surrogate code point; \<^verbatim>\<open>bytes.decode("utf-8")\<close> is
  strict: it rejects a stray continuation byte, a truncated sequence, an overlong form, an
  encoded surrogate and a value beyond U+10FFFF.
\<close>

definition is_cont :: "nat \<Rightarrow> bool" where
  "is_cont b = (128 \<le> b \<and> b < 192)"

definition is_surrogate :: "nat \<Rightarrow> bool" where
  "is_surrogate c = (55296 \<le> c \<and> c < 57344)"

definition utf8_enc_cp :: "nat \<Rightarrow> nat list option" where
  "utf8_enc_cp c =
     (if c < 128 then Some [c]
      else if c < 2048 then Some [192 + c div 64, 128 + c mod 64]
      else if c < 65536 then
        (if is_surrogate c then None
         else Some [224 + c div 4096, 128 + (c div 64) mod 64, 128 + c mod 64])
      else if c < 1114112 then
        Some [240 + c div 262144, 128 + (c div 4096) mod 64, 128 + (c div 64) mod 64,
              128 + c mod 64]
      else None)"

fun utf8_enc :: "pystr \<Rightarrow> nat list option" where
  "utf8_enc [] = Some []"
| "utf8_enc (c # cs) =
     (case utf8_enc_cp c of
        None \<Rightarrow> None
      | Some bs \<Rightarrow> (case utf8_enc cs of None \<Rightarrow> None | Some r \<Rightarrow> Some (bs @ r)))"

fun utf8_dec :: "nat list \<Rightarrow> pystr option" where
  "utf8_dec [] = Some []"
| "utf8_dec (b0 # bs) =
     (if b0 < 128 then map_option ((#) b0) (utf8_dec bs)
      else if 194 \<le> b0 \<and> b0 < 224 then
        (case bs of
           b1 # r \<Rightarrow>
             if is_cont b1 then map_option ((#) ((b0 - 192) * 64 + (b1 - 128))) (utf8_dec r)
             else None
         | _ \<Rightarrow> None)
      else if 224 \<le> b0 \<and> b0 < 240 then
        (case bs of
           b1 # b2 # r \<Rightarrow>
             (let c = (b0 - 224) * 4096 + (b1 - 128) * 64 + (b2 - 128)
              in if is_cont b1 \<and> is_cont b2 \<and> 2048 \<le> c \<and> \<not> is_surrogate c
                 then map_option ((#) c) (utf8_dec r) else None)
         | _ \<Rightarrow> None)
      else if 240 \<le> b0 \<and> b0 < 245 then
        (case bs of
           b1 # b2 # b3 # r \<Rightarrow>
             (let c = (b0 - 240) * 262144 + (b1 - 128) * 4096 + (b2 - 128) * 64 + (b3 - 128)
              in if is_cont b1 \<and> is_cont b2 \<and> is_cont b3 \<and> 65536 \<le> c \<and> c < 1114112
                 then map_option ((#) c) (utf8_dec r) else None)
         | _ \<Rightarrow> None)
      else None)"

definition str_encode :: "pystr \<Rightarrow> exn + pybytes" where
  "str_encode s =
     (case utf8_enc s of None \<Rightarrow> Inl UnicodeEncodeError | Some ns \<Rightarrow> Inr (map char_of ns))"

definition bytes_decode :: "pybytes \<Rightarrow> exn + pystr" where
  "bytes_decode b =
     (case utf8_dec (map of_char b) of None \<Rightarrow> Inl UnicodeDecodeError | Some s \<Rightarrow> Inr s)"

subsection \<open>\<^verbatim>\<open>repr\<close> and \<^verbatim>\<open>str\<close>\<close>

text \<open>
  \<^verbatim>\<open>repr\<close> of a \<^verbatim>\<open>str\<close> keeps a non-ASCII character when the interpreter's Unicode
  database calls it printable and escapes it otherwise; that table is the parameter
  \<open>isprintable\<close>. Everything else is fixed by the language: the quote is the double quote
  exactly when the text holds a single quote and no double quote.
\<close>

definition quote_for :: "nat list \<Rightarrow> nat" where
  "quote_for s = (if 39 \<in> set s \<and> 34 \<notin> set s then 34 else 39)"

definition repr_str_char :: "(nat \<Rightarrow> bool) \<Rightarrow> nat \<Rightarrow> nat \<Rightarrow> pystr" where
  "repr_str_char isprintable q c =
     (if c = q \<or> c = 92 then [92, c]
      else if c = 9 then [92, 116]
      else if c = 10 then [92, 110]
      else if c = 13 then [92, 114]
      else if c < 32 \<or> c = 127 then [92, 120] @ u (hex_digits 2 c)
      else if c < 127 then [c]
      else if isprintable c then [c]
      else if c < 256 then [92, 120] @ u (hex_digits 2 c)
      else if c < 65536 then [92, 117] @ u (hex_digits 4 c)
      else [92, 85] @ u (hex_digits 8 c))"

definition repr_str :: "(nat \<Rightarrow> bool) \<Rightarrow> pystr \<Rightarrow> pystr" where
  "repr_str isprintable s =
     (let q = quote_for s in [q] @ concat (map (repr_str_char isprintable q) s) @ [q])"

definition repr_bytes_char :: "nat \<Rightarrow> nat \<Rightarrow> pystr" where
  "repr_bytes_char q c =
     (if c = q \<or> c = 92 then [92, c]
      else if c = 9 then [92, 116]
      else if c = 10 then [92, 110]
      else if c = 13 then [92, 114]
      else if c < 32 \<or> 127 \<le> c then [92, 120] @ u (hex_digits 2 c)
      else [c])"

definition repr_bytes :: "pybytes \<Rightarrow> pystr" where
  "repr_bytes b =
     (let s = map of_char b; q = quote_for s
      in [98, q] @ concat (map (repr_bytes_char q) s) @ [q])"

fun py_repr :: "(nat \<Rightarrow> bool) \<Rightarrow> pyval \<Rightarrow> pystr" where
  "py_repr isprintable PNone = u ''None''"
| "py_repr isprintable (PBool b) = (if b then u ''True'' else u ''False'')"
| "py_repr isprintable (PInt i) = u (str_int i)"
| "py_repr isprintable (PFloat f) = u (float_repr f)"
| "py_repr isprintable (PStr s) = repr_str isprintable s"
| "py_repr isprintable (PBytes b) = repr_bytes b"
| "py_repr isprintable (PList xs) =
     u ''['' @ join (u '', '') (map (py_repr isprintable) xs) @ u '']''"
| "py_repr isprintable (PDict d) =
     u ''{'' @
     join (u '', '')
       (map (\<lambda>kv. py_repr isprintable (fst kv) @ u '': '' @ py_repr isprintable (snd kv)) d) @
     u ''}''"

fun py_str :: "(nat \<Rightarrow> bool) \<Rightarrow> pyval \<Rightarrow> pystr" where
  "py_str isprintable (PStr s) = s"
| "py_str isprintable v = py_repr isprintable v"

subsection \<open>\<^verbatim>\<open>json.dumps\<close>\<close>

text \<open>
  \<^verbatim>\<open>json.dumps\<close> with its defaults: separators \<^verbatim>\<open>", "\<close> and \<^verbatim>\<open>": "\<close>, every character
  outside the printable ASCII range escaped (a code point beyond the basic plane as a
  surrogate pair), a key that is a number, a boolean or \<^verbatim>\<open>None\<close> coerced to text, and a
  \<^verbatim>\<open>TypeError\<close> for \<^verbatim>\<open>bytes\<close> and for any other key.
\<close>

definition json_char :: "nat \<Rightarrow> pystr" where
  "json_char c =
     (if c = 34 then [92, 34]
      else if c = 92 then [92, 92]
      else if c = 10 then [92, 110]
      else if c = 13 then [92, 114]
      else if c = 9 then [92, 116]
      else if c = 8 then [92, 98]
      else if c = 12 then [92, 102]
      else if 32 \<le> c \<and> c < 127 then [c]
      else if c < 65536 then [92, 117] @ u (hex_digits 4 c)
      else [92, 117] @ u (hex_digits 4 (55296 + (c - 65536) div 1024 mod 1024)) @
           [92, 117] @ u (hex_digits 4 (56320 + (c - 65536) mod 1024)))"

definition json_string :: "pystr \<Rightarrow> pystr" where
  "json_string s = [34] @ concat (map json_char s) @ [34]"

definition json_float :: "pyfloat \<Rightarrow> pystr" where
  "json_float f =
     (let t = float_repr f
      in if t = ''nan'' then u ''NaN''
         else if t = ''inf'' then u ''Infinity''
         else if t = ''-inf'' then u ''-Infinity''
         else u t)"

fun json_key :: "pyval \<Rightarrow> exn + pystr" where
  "json_key (PStr s) = Inr s"
| "json_key (PFloat f) = Inr (json_float f)"
| "json_key (PBool b) = Inr (if b then u ''true'' else u ''false'')"
| "json_key PNone = Inr (u ''null'')"
| "json_key (PInt i) = Inr (u (str_int i))"
| "json_key v =
     Inl (TypeError (u ''keys must be str, int, float, bool or None, not '' @ u (type_name v)))"

fun collect :: "(exn + 'a) list \<Rightarrow> exn + 'a list" where
  "collect [] = Inr []"
| "collect (Inl e # rs) = Inl e"
| "collect (Inr x # rs) = (case collect rs of Inl e \<Rightarrow> Inl e | Inr xs \<Rightarrow> Inr (x # xs))"

fun json_dumps :: "pyval \<Rightarrow> exn + pystr" where
  "json_dumps PNone = Inr (u ''null'')"
| "json_dumps (PBool b) = Inr (if b then u ''true'' else u ''false'')"
| "json_dumps (PInt i) = Inr (u (str_int i))"
| "json_dumps (PFloat f) = Inr (json_float f)"
| "json_dumps (PStr s) = Inr (json_string s)"
| "json_dumps (PBytes b) = Inl (TypeError (u ''Object of type bytes is not JSON serializable''))"
| "json_dumps (PList xs) =
     (case collect (map json_dumps xs) of
        Inl e \<Rightarrow> Inl e
      | Inr ts \<Rightarrow> Inr (u ''['' @ join (u '', '') ts @ u '']''))"
| "json_dumps (PDict d) =
     (case collect
        (map (\<lambda>kv. case json_key (fst kv) of
                      Inl e \<Rightarrow> Inl e
                    | Inr k \<Rightarrow> (case json_dumps (snd kv) of
                                  Inl e \<Rightarrow> Inl e
                                | Inr t \<Rightarrow> Inr (json_string k @ u '': '' @ t))) d) of
        Inl e \<Rightarrow> Inl e
      | Inr ts \<Rightarrow> Inr (u ''{'' @ join (u '', '') ts @ u ''}''))"

section \<open>The connection\<close>

text \<open>
  \<^verbatim>\<open>RedisConnectionManager.get_connection()\<close> is not among the sources, so its result is a
  parameter of every tool: either an exception or a handle \<open>r\<close>. The handle is the record
  of the client methods the tools call. Each method takes the state \<open>'s\<close> of the store and
  returns the new state with either the exception it raised or its reply. Nothing is
  assumed about a handle: theorems about all handles are theorems about every store
  behaviour.
\<close>

record 's redis =
  r_set :: "pystr \<Rightarrow> pyval \<Rightarrow> 's \<Rightarrow> (exn + pyval) \<times> 's"
  r_setex :: "pystr \<Rightarrow> int \<Rightarrow> pyval \<Rightarrow> 's \<Rightarrow> (exn + pyval) \<times> 's"
  r_get :: "pystr \<Rightarrow> 's \<Rightarrow> (exn + pyval) \<times> 's"
  r_incr :: "pystr \<Rightarrow> 's \<Rightarrow> (exn + int) \<times> 's"
  r_decr :: "pystr \<Rightarrow> 's \<Rightarrow> (exn + int) \<times> 's"
  r_incrbyfloat :: "pystr \<Rightarrow> pyfloat \<Rightarrow> 's \<Rightarrow> (exn + pyfloat) \<times> 's"
  r_lpush :: "pystr \<Rightarrow> pyval list \<Rightarrow> 's \<Rightarrow> (exn + pyval) \<times> 's"
  r_rpush :: "pystr \<Rightarrow> pyval list \<Rightarrow> 's \<Rightarrow> (exn + pyval) \<times> 's"
  r_expire :: "pystr \<Rightarrow> int \<Rightarrow> 's \<Rightarrow> (exn + pyval) \<times> 's"
  r_lpop :: "pystr \<Rightarrow> 's \<Rightarrow> (exn + pyval) \<times> 's"
  r_rpop :: "pystr \<Rightarrow> 's \<Rightarrow> (exn + pyval) \<times> 's"
  r_lrange :: "pystr \<Rightarrow> int \<Rightarrow> int \<Rightarrow> 's \<Rightarrow> (exn + pyval list) \<times> 's"
  r_llen :: "pystr \<Rightarrow> 's \<Rightarrow> (exn + int) \<times> 's"

text \<open>\<^verbatim>\<open>except RedisError as e: return f"...{str(e)}"\<close>: a \<^verbatim>\<open>RedisError\<close> raised in the
  \<^verbatim>\<open>try\<close> block becomes the returned text; any other exception propagates.\<close>

fun except_RedisError :: "(pystr \<Rightarrow> pystr) \<Rightarrow> (exn + pyval) \<times> 's \<Rightarrow> (exn + pyval) \<times> 's" where
  "except_RedisError msg (Inl (RedisError m), s) = (Inr (PStr (msg m)), s)"
| "except_RedisError msg (res, s) = (res, s)"

section \<open>String tools (\<^verbatim>\<open>src/tools/string.py\<close>)\<close>

text \<open>Lines 23 to 31 of \<^verbatim>\<open>set\<close>: \<^verbatim>\<open>bytes\<close> pass, a \<^verbatim>\<open>dict\<close> goes through
  \<^verbatim>\<open>json.dumps\<close>, anything else through \<^verbatim>\<open>str\<close>, and a resulting \<^verbatim>\<open>str\<close> is encoded.
  Both steps stand before the \<^verbatim>\<open>try\<close>.\<close>

definition encode_value :: "(nat \<Rightarrow> bool) \<Rightarrow> pyval \<Rightarrow> exn + pyval" where
  "encode_value isprintable v =
     (case (if isinstance_bytes v then Inr v
            else if isinstance_dict v then
              (case json_dumps v of Inl e \<Rightarrow> Inl e | Inr t \<Rightarrow> Inr (PStr t))
            else Inr (PStr (py_str isprintable v))) of
        Inl e \<Rightarrow> Inl e
      | Inr (PStr t) \<Rightarrow> (case str_encode t of Inl e \<Rightarrow> Inl e | Inr b \<Rightarrow> Inr (PBytes b))
      | Inr ev \<Rightarrow> Inr ev)"

definition set_tool ::
  "(nat \<Rightarrow> bool) \<Rightarrow> exn + 's redis \<Rightarrow> pystr \<Rightarrow> pyval \<Rightarrow> int option \<Rightarrow> 's \<Rightarrow> (exn + pyval) \<times> 's" where
  "set_tool isprintable conn key v expiration s =
     (case encode_value isprintable v of
        Inl e \<Rightarrow> (Inl e, s)
      | Inr encoded_value \<Rightarrow>
          except_RedisError (\<lambda>m. u ''Error setting key '' @ key @ u '': '' @ m)
            (case conn of
               Inl e \<Rightarrow> (Inl e, s)
             | Inr r \<Rightarrow>
                 (case (case ttl_of expiration of
                          Some t \<Rightarrow> r_setex r key t encoded_value s
                        | None \<Rightarrow> r_set r key encoded_value s) of
                    (Inl e, s') \<Rightarrow> (Inl e, s')
                  | (Inr ok, s') \<Rightarrow>
                      (Inr (PStr (u ''Successfully set '' @ key @
                                  (case ttl_of expiration of
                                     Some t \<Rightarrow> u '' with expiration '' @ u (str_int t) @ u '' seconds''
                                   | None \<Rightarrow> []))), s'))))"

definition get_tool :: "exn + 's redis \<Rightarrow> pystr \<Rightarrow> 's \<Rightarrow> (exn + pyval) \<times> 's" where
  "get_tool conn key s =
     except_RedisError (\<lambda>m. u ''Error retrieving key '' @ key @ u '': '' @ m)
       (case conn of
          Inl e \<Rightarrow> (Inl e, s)
        | Inr r \<Rightarrow>
            (case r_get r key s of
               (Inl e, s') \<Rightarrow> (Inl e, s')
             | (Inr v, s') \<Rightarrow>
                 (case v of
                    PNone \<Rightarrow> (Inr (PStr (u ''Key '' @ key @ u '' does not exist'')), s')
                  | PBytes b \<Rightarrow>
                      (case bytes_decode b of
                         Inr text \<Rightarrow> (Inr (PStr text), s')
                       | Inl UnicodeDecodeError \<Rightarrow> (Inr v, s')
                       | Inl e \<Rightarrow> (Inl e, s'))
                  | _ \<Rightarrow> (Inr v, s'))))"



definition incrbyfloat :: "exn + 's redis \<Rightarrow> pystr \<Rightarrow> pyfloat \<Rightarrow> 's \<Rightarrow> (exn + pyval) \<times> 's" where
  "incrbyfloat conn key amount s =
     except_RedisError (\<lambda>m. u ''Error incrementing key '' @ key @ u '' by float: '' @ m)
       (case conn of
          Inl e \<Rightarrow> (Inl e, s)
        | Inr r \<Rightarrow>
            (case r_incrbyfloat r key amount s of
               (Inl e, s') \<Rightarrow> (Inl e, s')
             | (Inr new_value, s') \<Rightarrow>
                 (Inr (PStr (u ''Key '' @ key @ u '' incremented by '' @ u (float_repr amount) @
                             u '', new value: '' @ u (float_repr new_value))), s')))"

definition decrbyfloat :: "exn + 's redis \<Rightarrow> pystr \<Rightarrow> pyfloat \<Rightarrow> 's \<Rightarrow> (exn + pyval) \<times> 's" where
  "decrbyfloat conn key amount s =
     except_RedisError (\<lambda>m. u ''Error decrementing key '' @ key @ u '' by float: '' @ m)
       (case conn of
          Inl e \<Rightarrow> (Inl e, s)
        | Inr r \<Rightarrow>
            (case r_incrbyfloat r key (float_neg amount) s of
               (Inl e, s') \<Rightarrow> (Inl e, s')
             | (Inr new_value, s') \<Rightarrow>
                 (Inr (PStr (u ''Key '' @ key @ u '' decremented by '' @ u (float_repr amount) @
                             u '', new value: '' @ u (float_repr new_value))), s')))"

section \<open>List tools (\<^verbatim>\<open>src/tools/list.py\<close>)\<close>

text \<open>The comprehension \<^verbatim>\<open>[json.dumps(v) if isinstance(v, dict) else v for v in value]\<close>:
  the first \<^verbatim>\<open>json.dumps\<close> that raises ends it.\<close>

definition dump_dicts :: "pyval list \<Rightarrow> exn + pyval list" where
  "dump_dicts xs =
     collect (map (\<lambda>v. if isinstance_dict v
                       then (case json_dumps v of Inl e \<Rightarrow> Inl e | Inr t \<Rightarrow> Inr (PStr t))
                       else Inr v) xs)"

text \<open>The three branches on the type of \<^verbatim>\<open>value\<close>, up to the arguments of the one push
  call; \<open>left\<close> says whether the list is reversed (\<^verbatim>\<open>lpush\<close>) or not (\<^verbatim>\<open>rpush\<close>).\<close>

definition push_args :: "bool \<Rightarrow> pyval \<Rightarrow> exn + pyval list" where
  "push_args left v =
     (case v of
        PList xs \<Rightarrow>
          (case dump_dicts xs of Inl e \<Rightarrow> Inl e | Inr vals \<Rightarrow> Inr (if left then rev vals else vals))
      | PDict d \<Rightarrow> (case json_dumps v of Inl e \<Rightarrow> Inl e | Inr t \<Rightarrow> Inr [PStr t])
      | _ \<Rightarrow> Inr [v])"

text \<open>\<^verbatim>\<open>if expire: r.expire(name, expire)\<close>, after a push that returned.\<close>

definition then_expire ::
  "'s redis \<Rightarrow> pystr \<Rightarrow> int option \<Rightarrow> pyval \<Rightarrow> (exn + pyval) \<times> 's \<Rightarrow> (exn + pyval) \<times> 's" where
  "then_expire r name expire done pushed =
     (case pushed of
        (Inl e, s') \<Rightarrow> (Inl e, s')
      | (Inr n, s') \<Rightarrow>
          (case ttl_of expire of
             None \<Rightarrow> (Inr done, s')
           | Some t \<Rightarrow>
               (case r_expire r name t s' of
                  (Inl e, s'') \<Rightarrow> (Inl e, s'')
                | (Inr ok, s'') \<Rightarrow> (Inr done, s''))))"

definition lpush ::
  "(nat \<Rightarrow> bool) \<Rightarrow> exn + 's redis \<Rightarrow> pystr \<Rightarrow> pyval \<Rightarrow> int option \<Rightarrow> 's \<Rightarrow> (exn + pyval) \<times> 's" where
  "lpush isprintable conn name v expire s =
     except_RedisError (\<lambda>m. u ''Error pushing value(s) to list '' @ [39] @ name @ [39] @ u '': '' @ m)
       (case conn of
          Inl e \<Rightarrow> (Inl e, s)
        | Inr r \<Rightarrow>
            (case push_args True v of
               Inl e \<Rightarrow> (Inl e, s)
             | Inr args \<Rightarrow>
                 then_expire r name expire
                   (PStr (u ''Value(s) '' @ [39] @ py_str isprintable v @
                          [39] @ u '' pushed to the left of list '' @ [39] @ name @ [39] @ u ''.''))
                   (r_lpush r name args s)))"

definition rpush ::
  "(nat \<Rightarrow> bool) \<Rightarrow> exn + 's redis \<Rightarrow> pystr \<Rightarrow> pyval \<Rightarrow> int option \<Rightarrow> 's \<Rightarrow> (exn + pyval) \<times> 's" where
  "rpush isprintable conn name v expire s =
     except_RedisError (\<lambda>m. u ''Error pushing value(s) to list '' @ [39] @ name @ [39] @ u '': '' @ m)
       (case conn of
          Inl e \<Rightarrow> (Inl e, s)
        | Inr r \<Rightarrow>
            (case push_args False v of
               Inl e \<Rightarrow> (Inl e, s)
             | Inr args \<Rightarrow>
                 then_expire r name expire
                   (PStr (u ''Value(s) '' @ [39] @ py_str isprintable v @
                          [39] @ u '' pushed to the right of list '' @ [39] @ name @ [39] @ u ''.''))
                   (r_rpush r name args s)))"

definition empty_or_missing :: "pystr \<Rightarrow> pyval" where
  "empty_or_missing name = PStr (u ''List '' @ [39] @ name @ [39] @ u '' is empty or does not exist.'')"

definition lpop :: "exn + 's redis \<Rightarrow> pystr \<Rightarrow> 's \<Rightarrow> (exn + pyval) \<times> 's" where
  "lpop conn name s =
     except_RedisError (\<lambda>m. u ''Error popping value from list '' @ [39] @ name @ [39] @ u '': '' @ m)
       (case conn of
          Inl e \<Rightarrow> (Inl e, s)
        | Inr r \<Rightarrow>
            (case r_lpop r name s of
               (Inl e, s') \<Rightarrow> (Inl e, s')
             | (Inr v, s') \<Rightarrow> (Inr (if truthy v then v else empty_or_missing name), s')))"

definition rpop :: "exn + 's redis \<Rightarrow> pystr \<Rightarrow> 's \<Rightarrow> (exn + pyval) \<times> 's" where
  "rpop conn name s =
     except_RedisError (\<lambda>m. u ''Error popping value from list '' @ [39] @ name @ [39] @ u '': '' @ m)
       (case conn of
          Inl e \<Rightarrow> (Inl e, s)
        | Inr r \<Rightarrow>
            (case r_rpop r name s of
               (Inl e, s') \<Rightarrow> (Inl e, s')
             | (Inr v, s') \<Rightarrow> (Inr (if truthy v then v else empty_or_missing name), s')))"

definition lrange :: "exn + 's redis \<Rightarrow> pystr \<Rightarrow> int \<Rightarrow> int \<Rightarrow> 's \<Rightarrow> (exn + pyval) \<times> 's" where
  "lrange conn name start stop s =
     except_RedisError
       (\<lambda>m. u ''Error retrieving values from list '' @ [39] @ name @ [39] @ u '': '' @ m)
       (case conn of
          Inl e \<Rightarrow> (Inl e, s)
        | Inr r \<Rightarrow>
            (case r_lrange r name start stop s of
               (Inl e, s') \<Rightarrow> (Inl e, s')
             | (Inr vals, s') \<Rightarrow>
                 (if \<not> truthy (PList vals) then (Inr (empty_or_missing name), s')
                  else (case json_dumps (PList vals) of
                          Inl e \<Rightarrow> (Inl e, s')
                        | Inr t \<Rightarrow> (Inr (PStr t), s')))))"


section \<open>Observing the store calls\<close>

text \<open>The calls a tool makes are observed by wrapping a handle so that every method
  appends its call to a log kept beside the store's state.\<close>

datatype cmd =
    SET pystr pyval
  | SETEX pystr int pyval
  | GET pystr
  | INCR pystr
  | DECR pystr
  | INCRBYFLOAT pystr pyfloat
  | LPUSH pystr "pyval list"
  | RPUSH pystr "pyval list"
  | EXPIRE pystr int
  | LPOP pystr
  | RPOP pystr
  | LRANGE pystr int int
  | LLEN pystr

definition logged :: "cmd \<Rightarrow> ('s \<Rightarrow> 'a \<times> 's) \<Rightarrow> cmd list \<times> 's \<Rightarrow> 'a \<times> (cmd list \<times> 's)" where
  "logged c f ls = (case f (snd ls) of (res, s') \<Rightarrow> (res, (fst ls @ [c], s')))"

definition traced :: "'s redis \<Rightarrow> (cmd list \<times> 's) redis" where
  "traced r =
     \<lparr> r_set = (\<lambda>k v. logged (SET k v) (r_set r k v)),
       r_setex = (\<lambda>k t v. logged (SETEX k t v) (r_setex r k t v)),
       r_get = (\<lambda>k. logged (GET k) (r_get r k)),
       r_incr = (\<lambda>k. logged (INCR k) (r_incr r k)),
       r_decr = (\<lambda>k. logged (DECR k) (r_decr r k)),
       r_incrbyfloat = (\<lambda>k a. logged (INCRBYFLOAT k a) (r_incrbyfloat r k a)),
       r_lpush = (\<lambda>k vs. logged (LPUSH k vs) (r_lpush r k vs)),
       r_rpush = (\<lambda>k vs. logged (RPUSH k vs) (r_rpush r k vs)),
       r_expire = (\<lambda>k t. logged (EXPIRE k t) (r_expire r k t)),
       r_lpop = (\<lambda>k. logged (LPOP k) (r_lpop r k)),
       r_rpop = (\<lambda>k. logged (RPOP k) (r_rpop r k)),
       r_lrange = (\<lambda>k a b. logged (LRANGE k a b) (r_lrange r k a b)),
       r_llen = (\<lambda>k. logged (LLEN k) (r_llen r k)) \<rparr>"

text \<open>The values a call carries to the store.\<close>

fun cmd_values :: "cmd \<Rightarrow> pyval list" where
  "cmd_values (SET k v) = [v]"
| "cmd_values (SETEX k t v) = [v]"
| "cmd_values (LPUSH k vs) = vs"
| "cmd_values (RPUSH k vs) = vs"
| "cmd_values c = []"

section \<open>A reference store\<close>

text \<open>
  Modelled from the spec: the connection handle that
  \<^verbatim>\<open>RedisConnectionManager.get_connection()\<close> (\<^verbatim>\<open>src/common/connection.py\<close>, not among the
  sources) returns, and the store behind it, which the spec describes by its primitives
  \<^verbatim>\<open>set/setex/get/incr/decr/incrbyfloat/lpush/rpush/lpop/rpop/lrange/llen/expire\<close>: a key
  holds a byte string or a list of byte strings; head push inserts the values one after
  the other at the head, tail push appends them; a pop on a missing list replies nothing;
  a ranged read counts a negative index from the tail; the length of a missing list is 0;
  increments reject a value that is not a number; every failure is raised as a store
  error. The client encodes a \<^verbatim>\<open>str\<close> argument as UTF-8 and a number by its text and
  refuses every other type with a store error. Whether replies come back as \<^verbatim>\<open>bytes\<close> or
  decoded to \<^verbatim>\<open>str\<close> is the connection's setting \<open>decode_responses\<close>, a parameter here.
  A float increment reads the stored text and the amount as decimal numbers (an optional
  sign, digits with an optional point, an optional power of ten), adds them exactly, and
  stores the sum in fixed notation without trailing zeros; the rounding of the store's own
  floating-point arithmetic is not modelled. The float that the client reads from the
  reply is the parameter \<open>f_parse\<close> of \<open>float_ops\<close>.
\<close>

datatype entry = EString pybytes | EList "pybytes list"

record store =
  entries :: "pybytes \<rightharpoonup> entry"
  ttls :: "pybytes \<rightharpoonup> int"

record float_ops =
  f_parse :: "pybytes \<Rightarrow> pyfloat"

definition invalid_input :: "pyval \<Rightarrow> exn" where
  "invalid_input v =
     RedisError (u ''Invalid input of type: '' @ [39] @ u (type_name v) @ [39] @
                 u ''. Convert to a bytes, string, int or float first.'')"

fun client_encode :: "pyval \<Rightarrow> exn + pybytes" where
  "client_encode (PBytes b) = Inr b"
| "client_encode (PBool b) = Inl (invalid_input (PBool b))"
| "client_encode (PInt i) = Inr (str_int i)"
| "client_encode (PFloat f) = Inr (float_repr f)"
| "client_encode (PStr s) = str_encode s"
| "client_encode v = Inl (invalid_input v)"

definition reply_bytes :: "bool \<Rightarrow> pybytes \<Rightarrow> exn + pyval" where
  "reply_bytes decode_responses b =
     (if decode_responses
      then (case bytes_decode b of Inl e \<Rightarrow> Inl e | Inr t \<Rightarrow> Inr (PStr t))
      else Inr (PBytes b))"

definition wrongtype :: exn where
  "wrongtype = RedisError (u ''WRONGTYPE Operation against a key holding the wrong kind of value'')"

definition wrong_arity :: "string \<Rightarrow> exn" where
  "wrong_arity c = RedisError (u ''wrong number of arguments for '' @ [39] @ u c @ [39] @ u '' command'')"

text \<open>Every method encodes its key first.\<close>

definition with_key :: "pystr \<Rightarrow> store \<Rightarrow> (pybytes \<Rightarrow> (exn + 'a) \<times> store) \<Rightarrow> (exn + 'a) \<times> store" where
  "with_key k s f = (case str_encode k of Inl e \<Rightarrow> (Inl e, s) | Inr kb \<Rightarrow> f kb)"

definition put :: "pybytes \<Rightarrow> entry \<Rightarrow> store \<Rightarrow> store" where
  "put kb e s = s\<lparr>entries := (entries s)(kb \<mapsto> e)\<rparr>"

definition delete :: "pybytes \<Rightarrow> store \<Rightarrow> store" where
  "delete kb s = s\<lparr>entries := (entries s)(kb := None), ttls := (ttls s)(kb := None)\<rparr>"

definition put_list :: "pybytes \<Rightarrow> pybytes list \<Rightarrow> store \<Rightarrow> store" where
  "put_list kb xs s = (if xs = [] then delete kb s else put kb (EList xs) s)"

definition ref_set :: "pystr \<Rightarrow> pyval \<Rightarrow> store \<Rightarrow> (exn + pyval) \<times> store" where
  "ref_set k v s =
     with_key k s (\<lambda>kb.
       case client_encode v of
         Inl e \<Rightarrow> (Inl e, s)
       | Inr b \<Rightarrow> (Inr (PBool True), (put kb (EString b) s)\<lparr>ttls := (ttls s)(kb := None)\<rparr>))"

definition ref_setex :: "pystr \<Rightarrow> int \<Rightarrow> pyval \<Rightarrow> store \<Rightarrow> (exn + pyval) \<times> store" where
  "ref_setex k t v s =
     with_key k s (\<lambda>kb.
       case client_encode v of
         Inl e \<Rightarrow> (Inl e, s)
       | Inr b \<Rightarrow>
           if t \<le> 0
           then (Inl (RedisError (u ''invalid expire time in '' @ [39] @ u ''setex'' @ [39] @
                                  u '' command'')), s)
           else (Inr (PBool True), (put kb (EString b) s)\<lparr>ttls := (ttls s)(kb \<mapsto> t)\<rparr>))"

definition ref_get :: "bool \<Rightarrow> pystr \<Rightarrow> store \<Rightarrow> (exn + pyval) \<times> store" where
  "ref_get decode_responses k s =
     with_key k s (\<lambda>kb.
       case entries s kb of
         None \<Rightarrow> (Inr PNone, s)
       | Some (EString b) \<Rightarrow> (reply_bytes decode_responses b, s)
       | Some (EList xs) \<Rightarrow> (Inl wrongtype, s))"

text \<open>The store reads an integer in its strict decimal form: an optional minus, no leading
  zero, no sign on zero, within 64 bits.\<close>

fun digits_value :: "nat \<Rightarrow> string \<Rightarrow> nat option" where
  "digits_value acc [] = Some acc"
| "digits_value acc (c # cs) =
     (if 48 \<le> (of_char c :: nat) \<and> (of_char c :: nat) \<le> 57
      then digits_value (acc * 10 + (of_char c - 48)) cs
      else None)"

definition in_int64 :: "int \<Rightarrow> bool" where
  "in_int64 i = (- 9223372036854775808 \<le> i \<and> i \<le> 9223372036854775807)"

definition parse_int :: "pybytes \<Rightarrow> int option" where
  "parse_int b =
     (case b of
        [] \<Rightarrow> None
      | c # cs \<Rightarrow>
          if b = ''0'' then Some 0
          else if c = CHR ''-'' then
            (case cs of
               [] \<Rightarrow> None
             | d # ds \<Rightarrow>
                 if d = CHR ''0'' then None
                 else (case digits_value 0 cs of
                         None \<Rightarrow> None
                       | Some n \<Rightarrow> if in_int64 (- int n) then Some (- int n) else None))
          else if c = CHR ''0'' then None
          else (case digits_value 0 b of
                  None \<Rightarrow> None
                | Some n \<Rightarrow> if in_int64 (int n) then Some (int n) else None))"

definition ref_incrby :: "int \<Rightarrow> pystr \<Rightarrow> store \<Rightarrow> (exn + int) \<times> store" where
  "ref_incrby d k s =
     with_key k s (\<lambda>kb.
       case entries s kb of
         Some (EList xs) \<Rightarrow> (Inl wrongtype, s)
       | e \<Rightarrow>
           (case parse_int (case e of Some (EString b) \<Rightarrow> b | _ \<Rightarrow> ''0'') of
              None \<Rightarrow> (Inl (RedisError (u ''value is not an integer or out of range'')), s)
            | Some n \<Rightarrow>
                if in_int64 (n + d) then (Inr (n + d), put kb (EString (str_int (n + d))) s)
                else (Inl (RedisError (u ''increment or decrement would overflow'')), s)))"

text \<open>Decimal numbers: the pair \<open>(m, k)\<close> is the number \<open>m / 10 ^ k\<close>.\<close>

type_synonym decimal = "int \<times> nat"

definition is_digit :: "char \<Rightarrow> bool" where
  "is_digit c = (48 \<le> (of_char c :: nat) \<and> (of_char c :: nat) \<le> 57)"

definition fixed_parse :: "string \<Rightarrow> (nat \<times> nat) option" where
  "fixed_parse s =
     (let ip = takeWhile is_digit s
      in case dropWhile is_digit s of
           [] \<Rightarrow> if ip = [] then None else map_option (\<lambda>n. (n, 0)) (digits_value 0 ip)
         | c # fd \<Rightarrow>
             if c = CHR ''.'' \<and> list_all is_digit fd \<and> (ip \<noteq> [] \<or> fd \<noteq> [])
             then map_option (\<lambda>n. (n, length fd)) (digits_value 0 (ip @ fd))
             else None)"

definition exp_parse :: "string \<Rightarrow> int option" where
  "exp_parse s =
     (case s of
        [] \<Rightarrow> None
      | c # r \<Rightarrow>
          if c = CHR ''-'' then (if r = [] then None else map_option (\<lambda>n. - int n) (digits_value 0 r))
          else if c = CHR ''+'' then (if r = [] then None else map_option int (digits_value 0 r))
          else map_option int (digits_value 0 s))"

definition scale10 :: "nat \<times> nat \<Rightarrow> int \<Rightarrow> nat \<times> nat" where
  "scale10 x ex =
     (case x of
        (n, k) \<Rightarrow>
          if 0 \<le> ex then (if nat ex \<le> k then (n, k - nat ex) else (n * 10 ^ (nat ex - k), 0))
          else (n, k + nat (- ex)))"

definition is_exp_mark :: "char \<Rightarrow> bool" where
  "is_exp_mark c = (c = CHR ''e'' \<or> c = CHR ''E'')"

definition unsigned_parse :: "string \<Rightarrow> (nat \<times> nat) option" where
  "unsigned_parse s =
     (let mant = takeWhile (\<lambda>c. \<not> is_exp_mark c) s
      in case dropWhile (\<lambda>c. \<not> is_exp_mark c) s of
           [] \<Rightarrow> fixed_parse mant
         | c # ex \<Rightarrow>
             (case fixed_parse mant of
                None \<Rightarrow> None
              | Some x \<Rightarrow> map_option (scale10 x) (exp_parse ex)))"

definition dec_parse :: "string \<Rightarrow> decimal option" where
  "dec_parse s =
     (case s of
        [] \<Rightarrow> None
      | c # r \<Rightarrow>
          if c = CHR ''-'' then map_option (\<lambda>x. (- int (fst x), snd x)) (unsigned_parse r)
          else if c = CHR ''+'' then map_option (\<lambda>x. (int (fst x), snd x)) (unsigned_parse r)
          else map_option (\<lambda>x. (int (fst x), snd x)) (unsigned_parse s))"

definition dec_add :: "decimal \<Rightarrow> decimal \<Rightarrow> decimal" where
  "dec_add x y =
     (let k = max (snd x) (snd y)
      in (fst x * 10 ^ (k - snd x) + fst y * 10 ^ (k - snd y), k))"

fun dec_norm :: "decimal \<Rightarrow> decimal" where
  "dec_norm (m, 0) = (m, 0)"
| "dec_norm (m, Suc k) = (if m mod 10 = 0 then dec_norm (m div 10, k) else (m, Suc k))"

fun pad_digits :: "nat \<Rightarrow> nat \<Rightarrow> string" where
  "pad_digits 0 n = []"
| "pad_digits (Suc k) n = pad_digits k (n div 10) @ [digit_char (n mod 10)]"

definition dec_format :: "decimal \<Rightarrow> string" where
  "dec_format x =
     (let n = nat \<bar>fst x\<bar>; k = snd x
      in (if fst x < 0 then ''-'' else []) @ str_nat (n div 10 ^ k) @
         (if k = 0 then [] else CHR ''.'' # pad_digits k (n mod 10 ^ k)))"

definition ref_incrbyfloat ::
  "float_ops \<Rightarrow> pystr \<Rightarrow> pyfloat \<Rightarrow> store \<Rightarrow> (exn + pyfloat) \<times> store" where
  "ref_incrbyfloat fo k a s =
     with_key k s (\<lambda>kb.
       case entries s kb of
         Some (EList xs) \<Rightarrow> (Inl wrongtype, s)
       | e \<Rightarrow>
           (case dec_parse (case e of Some (EString b) \<Rightarrow> b | _ \<Rightarrow> ''0'') of
              None \<Rightarrow> (Inl (RedisError (u ''value is not a valid float'')), s)
            | Some x \<Rightarrow>
                (case dec_parse (float_repr a) of
                   None \<Rightarrow> (Inl (RedisError (u ''value is not a valid float'')), s)
                 | Some y \<Rightarrow>
                     (let b' = dec_format (dec_norm (dec_add x y))
                      in (Inr (f_parse fo b'), put kb (EString b') s)))))"

definition ref_push ::
  "bool \<Rightarrow> pystr \<Rightarrow> pyval list \<Rightarrow> store \<Rightarrow> (exn + pyval) \<times> store" where
  "ref_push left k vs s =
     with_key k s (\<lambda>kb.
       case collect (map client_encode vs) of
         Inl e \<Rightarrow> (Inl e, s)
       | Inr bs \<Rightarrow>
           if bs = [] then (Inl (wrong_arity (if left then ''lpush'' else ''rpush'')), s)
           else (case entries s kb of
                   Some (EString b) \<Rightarrow> (Inl wrongtype, s)
                 | e \<Rightarrow>
                     (let old = (case e of Some (EList xs) \<Rightarrow> xs | _ \<Rightarrow> []);
                          new = (if left then rev bs @ old else old @ bs)
                      in (Inr (PInt (int (length new))), put kb (EList new) s))))"

definition ref_expire :: "pystr \<Rightarrow> int \<Rightarrow> store \<Rightarrow> (exn + pyval) \<times> store" where
  "ref_expire k t s =
     with_key k s (\<lambda>kb.
       case entries s kb of
         None \<Rightarrow> (Inr (PBool False), s)
       | Some e \<Rightarrow>
           if t \<le> 0 then (Inr (PBool True), delete kb s)
           else (Inr (PBool True), s\<lparr>ttls := (ttls s)(kb \<mapsto> t)\<rparr>))"

definition ref_pop :: "bool \<Rightarrow> bool \<Rightarrow> pystr \<Rightarrow> store \<Rightarrow> (exn + pyval) \<times> store" where
  "ref_pop decode_responses left k s =
     with_key k s (\<lambda>kb.
       case entries s kb of
         None \<Rightarrow> (Inr PNone, s)
       | Some (EString b) \<Rightarrow> (Inl wrongtype, s)
       | Some (EList xs) \<Rightarrow>
           (case xs of
              [] \<Rightarrow> (Inr PNone, s)
            | y # ys \<Rightarrow>
                if left then (reply_bytes decode_responses y, put_list kb ys s)
                else (reply_bytes decode_responses (last xs), put_list kb (butlast xs) s)))"

text \<open>The inclusive range of a ranged read, negative indices counted from the tail.\<close>

definition range_slice :: "int \<Rightarrow> int \<Rightarrow> 'a list \<Rightarrow> 'a list" where
  "range_slice start stop xs =
     (let n = int (length xs);
          a = (if start < 0 then max 0 (n + start) else start);
          b = (if stop < 0 then n + stop else stop);
          b' = (if n \<le> b then n - 1 else b)
      in if b' < a \<or> n \<le> a then [] else take (nat (b' - a + 1)) (drop (nat a) xs))"

definition ref_lrange ::
  "bool \<Rightarrow> pystr \<Rightarrow> int \<Rightarrow> int \<Rightarrow> store \<Rightarrow> (exn + pyval list) \<times> store" where
  "ref_lrange decode_responses k start stop s =
     with_key k s (\<lambda>kb.
       case entries s kb of
         None \<Rightarrow> (Inr [], s)
       | Some (EString b) \<Rightarrow> (Inl wrongtype, s)
       | Some (EList xs) \<Rightarrow>
           (collect (map (reply_bytes decode_responses) (range_slice start stop xs)), s))"

definition ref_llen :: "pystr \<Rightarrow> store \<Rightarrow> (exn + int) \<times> store" where
  "ref_llen k s =
     with_key k s (\<lambda>kb.
       case entries s kb of
         None \<Rightarrow> (Inr 0, s)
       | Some (EString b) \<Rightarrow> (Inl wrongtype, s)
       | Some (EList xs) \<Rightarrow> (Inr (int (length xs)), s))"

definition redis_ref :: "bool \<Rightarrow> float_ops \<Rightarrow> store redis" where
  "redis_ref decode_responses fo =
     \<lparr> r_set = ref_set,
       r_setex = ref_setex,
       r_get = ref_get decode_responses,
       r_incr = ref_incrby 1,
       r_decr = ref_incrby (- 1),
       r_incrbyfloat = ref_incrbyfloat fo,
       r_lpush = ref_push True,
       r_rpush = ref_push False,
       r_expire = ref_expire,
       r_lpop = ref_pop decode_responses True,
       r_rpop = ref_pop decode_responses False,
       r_lrange = ref_lrange decode_responses,
       r_llen = ref_llen \<rparr>"

definition empty_store :: store where
  "empty_store = \<lparr> entries = Map.empty, ttls = Map.empty \<rparr>"

section \<open>Notions used in the statements\<close>



text \<open>Parameters for the concrete runs: a Unicode table that calls no non-ASCII character
  printable (the runs print ASCII only), and a client that reads the reply of a float
  increment as the float of that text.\<close>

definition plain_table :: "nat \<Rightarrow> bool" where
  "plain_table c = False"

definition sample_float_ops :: float_ops where
  "sample_float_ops = \<lparr> f_parse = PyFloat \<rparr>"

text \<open>The number a decimal stands for; the digits of a decimal in fixed notation; and the
  amounts that print without a sign, the non-negative finite floats.\<close>

definition dec_val :: "decimal \<Rightarrow> rat" where
  "dec_val x = of_int (fst x) / 10 ^ snd x"

definition dec_body :: "nat \<Rightarrow> nat \<Rightarrow> string" where
  "dec_body n k =
     str_nat (n div 10 ^ k) @ (if k = 0 then [] else CHR ''.'' # pad_digits k (n mod 10 ^ k))"

definition magnitude :: "pyfloat \<Rightarrow> bool" where
  "magnitude a = (case float_repr a of [] \<Rightarrow> False | c # r \<Rightarrow> is_digit c)"

text \<open>Byte strings of ASCII characters, and logs in which no call carries a \<^verbatim>\<open>dict\<close>.\<close>

definition ascii :: "string \<Rightarrow> bool" where
  "ascii s = list_all (\<lambda>c. (of_char c :: nat) < 128) s"

definition no_native_dict :: "cmd list \<Rightarrow> bool" where
  "no_native_dict cs = list_all (\<lambda>c. list_all (\<lambda>x. \<not> isinstance_dict x) (cmd_values c)) cs"

text \<open>The JSON text of the dictionary \<^verbatim>\<open>{"a": 1}\<close>, for the concrete runs.\<close>

definition json_a1 :: string where
  "json_a1 = [CHR ''{'', CHR 0x22, CHR ''a'', CHR 0x22, CHR '':'', CHR '' '', CHR ''1'', CHR ''}'']"

text \<open>A ttl the reference store accepts: none, or a positive one.\<close>

definition ttl_accepted :: "int option \<Rightarrow> bool" where
  "ttl_accepted e = (case ttl_of e of None \<Rightarrow> True | Some t \<Rightarrow> 0 < t)"

text \<open>The message of \<^verbatim>\<open>get\<close> for an absent key, and that message for the key \<^verbatim>\<open>k\<close> as
  bytes.\<close>

definition does_not_exist :: "pystr \<Rightarrow> pystr" where
  "does_not_exist key = u ''Key '' @ key @ u '' does not exist''"

definition sentinel_bytes :: string where
  "sentinel_bytes = ''Key k does not exist''"

text \<open>The bytes under which a pushed value reaches the list: a \<^verbatim>\<open>dict\<close> goes through
  \<^verbatim>\<open>json.dumps\<close> in the tool, and the client encodes what the tool hands it. The list
  \<^verbatim>\<open>["a", "b", "c"]\<close> serves the concrete runs.\<close>

definition stored_form :: "pyval \<Rightarrow> exn + pybytes" where
  "stored_form v =
     (if isinstance_dict v
      then (case json_dumps v of Inl e \<Rightarrow> Inl e | Inr t \<Rightarrow> client_encode (PStr t))
      else client_encode v)"

definition abc :: "pyval list" where
  "abc = [PStr (u ''a''), PStr (u ''b''), PStr (u ''c'')]"

section \<open>Errors of the codec steps\<close>

lemma collect_Inl: "collect xs = Inl e \<Longrightarrow> Inl e \<in> set xs"
  by (induction xs rule: collect.induct) (auto split: sum.splits)





lemma str_encode_q: "str_encode (u ''q'') = Inr ''q''"
  by (simp add: str_encode_def u_def utf8_enc_cp_def) code_simp

section \<open>Containment of store errors\<close>






section \<open>ASCII text and the codec\<close>

lemma utf8_enc_ascii: "ascii s \<Longrightarrow> utf8_enc (map of_char s) = Some (map of_char s)"
  by (induction s) (simp_all add: ascii_def utf8_enc_cp_def)

lemma utf8_dec_ascii: "ascii s \<Longrightarrow> utf8_dec (map of_char s) = Some (map of_char s)"
  by (induction s) (simp_all add: ascii_def)

lemma str_encode_ascii: "ascii s \<Longrightarrow> str_encode (u s) = Inr s"
  by (simp add: str_encode_def u_def utf8_enc_ascii comp_def)

lemma bytes_decode_ascii: "ascii s \<Longrightarrow> bytes_decode s = Inr (u s)"
  by (simp add: bytes_decode_def u_def utf8_dec_ascii)

lemma encode_value_7: "encode_value plain_table (PInt 7) = Inr (PBytes ''7'')"
  by (simp add: encode_value_def str_int_def digit_char_def str_encode_ascii ascii_def)

section \<open>The calls of the string tools\<close>

lemma traced_sel:
  "r_set (traced r) k v ls = logged (SET k v) (r_set r k v) ls"
  "r_setex (traced r) k t v ls = logged (SETEX k t v) (r_setex r k t v) ls"
  "r_get (traced r) k ls = logged (GET k) (r_get r k) ls"
  "r_incrbyfloat (traced r) k a ls = logged (INCRBYFLOAT k a) (r_incrbyfloat r k a) ls"
  "r_lpush (traced r) k vs ls = logged (LPUSH k vs) (r_lpush r k vs) ls"
  "r_rpush (traced r) k vs ls = logged (RPUSH k vs) (r_rpush r k vs) ls"
  "r_expire (traced r) k t ls = logged (EXPIRE k t) (r_expire r k t) ls"
  by (simp_all add: traced_def)

lemma logged_pair: "logged c f (calls, s) = (fst (f s), (calls @ [c], snd (f s)))"
  by (simp add: logged_def split: prod.splits)

lemma snd_except: "snd (except_RedisError msg x) = snd x"
  by (cases "(msg, x)" rule: except_RedisError.cases) simp_all

lemma entries_put: "entries (put kb e s) kb = Some e"
  by (simp add: put_def)

lemma set_tool_log:
  "encode_value pr v = Inr ev \<Longrightarrow>
   fst (snd (set_tool pr (Inr (traced r)) key v expiration (calls, s))) =
     calls @ [case ttl_of expiration of Some t \<Rightarrow> SETEX key t ev | None \<Rightarrow> SET key ev]"
  by (cases "ttl_of expiration")
     (auto simp: set_tool_def traced_sel logged_pair snd_except split: prod.splits sum.splits)

text \<open>
  Claim C6, as the code has it. The test is \<^verbatim>\<open>if expiration:\<close>. For every call
  \<^verbatim>\<open>set(key, value, ttl)\<close> whose value encodes: when the ttl is present and not 0 (a negative
  one too) the tool makes exactly one store call, \<^verbatim>\<open>setex\<close> with that ttl; when it is
  absent or 0, exactly one plain \<^verbatim>\<open>set\<close>. When that call returns, the tool returns the
  confirmation, which names the ttl exactly when the ttl is present and not 0.
\<close>

theorem set_store_call:
  "encode_value pr v = Inr ev \<longrightarrow>
     fst (snd (set_tool pr (Inr (traced r)) key v expiration (calls, s))) =
       calls @ [case ttl_of expiration of Some t \<Rightarrow> SETEX key t ev | None \<Rightarrow> SET key ev] \<and>
     (\<forall>ok s'. (case ttl_of expiration of
                 Some t \<Rightarrow> r_setex r key t ev s
               | None \<Rightarrow> r_set r key ev s) = (Inr ok, s') \<longrightarrow>
        set_tool pr (Inr r) key v expiration s =
          (Inr (PStr (u ''Successfully set '' @ key @
                      (case ttl_of expiration of
                         Some t \<Rightarrow> u '' with expiration '' @ u (str_int t) @ u '' seconds''
                       | None \<Rightarrow> []))), s'))"
  by (cases "ttl_of expiration")
     (auto simp: set_tool_def traced_sel logged_pair snd_except split: prod.splits sum.splits)

text \<open>On the reference store, \<^verbatim>\<open>set("k", 7, 60)\<close> makes the one call
  \<^verbatim>\<open>setex("k", 60, b"7")\<close> and confirms with the ttl.\<close>

theorem set_store_call_witness:
  "encode_value plain_table (PInt 7) = Inr (PBytes ''7'') \<and>
   fst (snd (set_tool plain_table (Inr (traced (redis_ref False sample_float_ops))) (u ''k'')
               (PInt 7) (Some 60) ([], empty_store))) = [SETEX (u ''k'') 60 (PBytes ''7'')] \<and>
   fst (set_tool plain_table (Inr (redis_ref False sample_float_ops)) (u ''k'') (PInt 7) (Some 60)
               empty_store) =
     Inr (PStr (u ''Successfully set k with expiration 60 seconds''))"
proof -
  let ?r = "redis_ref False sample_float_ops"
  have call: "r_setex ?r (u ''k'') 60 (PBytes ''7'') empty_store =
      (Inr (PBool True), snd (r_setex ?r (u ''k'') 60 (PBytes ''7'') empty_store))"
    by (simp add: redis_ref_def ref_setex_def with_key_def str_encode_ascii ascii_def)
  from set_store_call[of plain_table "PInt 7" "PBytes ''7''" ?r "u ''k''" "Some 60" "[]" empty_store]
    encode_value_7 call
  show ?thesis by (simp add: u_def str_int_def digit_char_def)
qed

text \<open>
  Claim C6 as stated fails at a negative ttl: it is not greater than 0, so the claim
  promises a plain \<^verbatim>\<open>set\<close>, and \<^verbatim>\<open>set("k", 7, -5)\<close> calls \<^verbatim>\<open>setex("k", -5, b"7")\<close>.
\<close>

theorem negative_ttl_uses_setex:
  "\<not> (0 < (- 5 :: int)) \<and>
   fst (snd (set_tool plain_table (Inr (traced (redis_ref False sample_float_ops))) (u ''k'')
               (PInt 7) (Some (- 5)) ([], empty_store))) =
     [SETEX (u ''k'') (- 5) (PBytes ''7'')]"
  using set_tool_log[OF encode_value_7, of "redis_ref False sample_float_ops" "u ''k''"
      "Some (- 5)" "[]" empty_store]
  by simp

section \<open>Pops and empty pushes\<close>

lemma ref_pop_tool:
  "str_encode name = Inr kb \<Longrightarrow> entries s kb = Some (EList (y # ys)) \<Longrightarrow>
   lpop (Inr (redis_ref False fo)) name s =
     (Inr (if y = [] then empty_or_missing name else PBytes y), put_list kb ys s)"
  by (simp add: lpop_def redis_ref_def ref_pop_def with_key_def reply_bytes_def)

text \<open>
  Claim C5 does not hold of the code. The tools test \<^verbatim>\<open>value if value else ...\<close>, and an
  empty string is false: on the list whose only element is the empty string, \<^verbatim>\<open>lpop\<close> and
  \<^verbatim>\<open>rpop\<close> remove the element from the store and return the "empty or does not exist"
  message instead of it.
\<close>

theorem pop_drops_empty_element:
  "lpop (Inr (redis_ref False sample_float_ops)) (u ''q'') (put ''q'' (EList [[]]) empty_store) =
     (Inr (empty_or_missing (u ''q'')), delete ''q'' (put ''q'' (EList [[]]) empty_store)) \<and>
   rpop (Inr (redis_ref False sample_float_ops)) (u ''q'') (put ''q'' (EList [[]]) empty_store) =
     (Inr (empty_or_missing (u ''q'')), delete ''q'' (put ''q'' (EList [[]]) empty_store)) \<and>
   entries (put ''q'' (EList [[]]) empty_store) ''q'' = Some (EList [[]]) \<and>
   entries (delete ''q'' (put ''q'' (EList [[]]) empty_store)) ''q'' = None"
  by (simp add: lpop_def rpop_def redis_ref_def ref_pop_def with_key_def str_encode_q
        entries_put reply_bytes_def put_list_def delete_def)

lemma empty_push_args: "push_args left (PList []) = Inr []"
  by (simp add: push_args_def dump_dicts_def)

text \<open>
  Claim C10. With an empty list of values \<^verbatim>\<open>lpush\<close> and \<^verbatim>\<open>rpush\<close> make the push call with
  no value. The store rejects it for its number of arguments, and the tool returns the
  error text with that cause, whatever \<^verbatim>\<open>expire\<close> is: no \<^verbatim>\<open>expire\<close> call follows, the store
  is unchanged, and the result is not the confirmation.
\<close>

theorem empty_push_rejected:
  "str_encode name = Inr kb \<longrightarrow>
     lpush pr (Inr (traced (redis_ref dr fo))) name (PList []) expire (calls, s) =
       (Inr (PStr (u ''Error pushing value(s) to list '' @ [39] @ name @ [39] @ u '': '' @
                   u ''wrong number of arguments for '' @ [39] @ u ''lpush'' @ [39] @ u '' command'')),
        (calls @ [LPUSH name []], s)) \<and>
     rpush pr (Inr (traced (redis_ref dr fo))) name (PList []) expire (calls, s) =
       (Inr (PStr (u ''Error pushing value(s) to list '' @ [39] @ name @ [39] @ u '': '' @
                   u ''wrong number of arguments for '' @ [39] @ u ''rpush'' @ [39] @ u '' command'')),
        (calls @ [RPUSH name []], s)) \<and>
     fst (lpush pr (Inr (redis_ref dr fo)) name (PList []) expire s) \<noteq>
       Inr (PStr (u ''Value(s) '' @ [39] @ py_str pr (PList []) @
                  [39] @ u '' pushed to the left of list '' @ [39] @ name @ [39] @ u ''.'')) \<and>
     fst (rpush pr (Inr (redis_ref dr fo)) name (PList []) expire s) \<noteq>
       Inr (PStr (u ''Value(s) '' @ [39] @ py_str pr (PList []) @
                  [39] @ u '' pushed to the right of list '' @ [39] @ name @ [39] @ u ''.''))"
  by (simp add: lpush_def rpush_def empty_push_args then_expire_def traced_sel logged_pair
        redis_ref_def ref_push_def with_key_def wrong_arity_def u_def)

text \<open>\<^verbatim>\<open>lpush("q", [])\<close> on the empty store.\<close>

theorem empty_push_rejected_witness:
  "str_encode (u ''q'') = Inr ''q'' \<and>
   lpush plain_table (Inr (traced (redis_ref False sample_float_ops))) (u ''q'') (PList []) None
       ([], empty_store) =
     (Inr (PStr (u ''Error pushing value(s) to list '' @ [39] @ u ''q'' @ [39] @ u '': '' @
                   u ''wrong number of arguments for '' @ [39] @ u ''lpush'' @ [39] @ u '' command'')),
      ([] @ [LPUSH (u ''q'') []], empty_store))"
  using empty_push_rejected[of "u ''q''" "''q''" plain_table False sample_float_ops None "[]"
      empty_store]
    str_encode_q by blast

section \<open>What is sent to the store\<close>

lemma collect_Inr_all2: "collect rs = Inr ys \<Longrightarrow> list_all2 (\<lambda>r y. r = Inr y) rs ys"
  by (induction rs arbitrary: ys rule: collect.induct) (auto split: sum.splits)

lemma collect_append:
  "collect (xs @ ys) =
     (case collect xs of
        Inl e \<Rightarrow> Inl e
      | Inr a \<Rightarrow> (case collect ys of Inl e \<Rightarrow> Inl e | Inr b \<Rightarrow> Inr (a @ b)))"
  by (induction xs rule: collect.induct) (auto split: sum.splits)

lemma dump_dicts_no_dict:
  "dump_dicts xs = Inr vals \<Longrightarrow> list_all (\<lambda>x. \<not> isinstance_dict x) vals"
proof -
  assume "dump_dicts xs = Inr vals"
  then have "list_all2 (\<lambda>r y. r = Inr y)
      (map (\<lambda>v. if isinstance_dict v
                 then (case json_dumps v of Inl e \<Rightarrow> Inl e | Inr t \<Rightarrow> Inr (PStr t))
                 else Inr v) xs) vals"
    unfolding dump_dicts_def by (rule collect_Inr_all2)
  then have "list_all2 (\<lambda>v y. (if isinstance_dict v
                 then (case json_dumps v of Inl e \<Rightarrow> Inl e | Inr t \<Rightarrow> Inr (PStr t))
                 else Inr v) = Inr y) xs vals"
    by (simp add: list_all2_map1)
  then have "list_all2 (\<lambda>v y. \<not> isinstance_dict y) xs vals"
    by (rule list_all2_mono) (auto split: if_splits sum.splits)
  then show ?thesis
    by (induction xs vals rule: list_all2_induct) simp_all
qed

lemma push_args_no_dict:
  "push_args left v = Inr args \<Longrightarrow> list_all (\<lambda>x. \<not> isinstance_dict x) args"
  unfolding push_args_def
  by (cases v) (auto split: sum.splits if_splits dest: dump_dicts_no_dict simp: list_all_iff)

lemma encode_value_bytes: "encode_value pr v = Inr ev \<Longrightarrow> \<exists>b. ev = PBytes b"
  unfolding encode_value_def
  by (cases v) (auto split: sum.splits if_splits)

lemma no_native_dict_simps:
  "no_native_dict []"
  "no_native_dict (c # cs) = (list_all (\<lambda>x. \<not> isinstance_dict x) (cmd_values c) \<and> no_native_dict cs)"
  by (simp_all add: no_native_dict_def)

lemma set_tool_no_dict:
  "no_native_dict (fst (snd (set_tool pr (Inr (traced r)) key v e ([], s))))"
proof (cases "encode_value pr v")
  case (Inl x)
  then show ?thesis by (simp add: set_tool_def no_native_dict_simps)
next
  case (Inr ev)
  from encode_value_bytes[OF Inr] obtain b where "ev = PBytes b" ..
  with set_tool_log[OF Inr, of r key e "[]" s] show ?thesis
    by (cases "ttl_of e") (simp_all add: no_native_dict_simps)
qed

lemma then_expire_log:
  "fst (snd (then_expire (traced r) name e done (logged c f (calls, s)))) = calls @ [c] \<or>
   (\<exists>t. fst (snd (then_expire (traced r) name e done (logged c f (calls, s)))) =
          calls @ [c, EXPIRE name t])"
  by (cases "ttl_of e")
     (auto simp: then_expire_def logged_pair traced_sel split: sum.splits prod.splits)

lemma lpush_log:
  "push_args True v = Inr args \<Longrightarrow>
   fst (snd (lpush pr (Inr (traced r)) name v e (calls, s))) = calls @ [LPUSH name args] \<or>
   (\<exists>t. fst (snd (lpush pr (Inr (traced r)) name v e (calls, s))) =
          calls @ [LPUSH name args, EXPIRE name t])"
  using then_expire_log[of r name e _ "LPUSH name args" "r_lpush r name args" calls s]
  by (simp add: lpush_def snd_except traced_sel)

lemma rpush_log:
  "push_args False v = Inr args \<Longrightarrow>
   fst (snd (rpush pr (Inr (traced r)) name v e (calls, s))) = calls @ [RPUSH name args] \<or>
   (\<exists>t. fst (snd (rpush pr (Inr (traced r)) name v e (calls, s))) =
          calls @ [RPUSH name args, EXPIRE name t])"
  using then_expire_log[of r name e _ "RPUSH name args" "r_rpush r name args" calls s]
  by (simp add: rpush_def snd_except traced_sel)

lemma lpush_no_dict:
  "no_native_dict (fst (snd (lpush pr (Inr (traced r)) name v e ([], s))))"
proof (cases "push_args True v")
  case (Inl x)
  then show ?thesis by (simp add: lpush_def snd_except no_native_dict_simps)
next
  case (Inr args)
  from lpush_log[OF Inr, of pr r name e "[]" s] push_args_no_dict[OF Inr]
  show ?thesis by (auto simp: no_native_dict_simps)
qed

lemma rpush_no_dict:
  "no_native_dict (fst (snd (rpush pr (Inr (traced r)) name v e ([], s))))"
proof (cases "push_args False v")
  case (Inl x)
  then show ?thesis by (simp add: rpush_def snd_except no_native_dict_simps)
next
  case (Inr args)
  from rpush_log[OF Inr, of pr r name e "[]" s] push_args_no_dict[OF Inr]
  show ?thesis by (auto simp: no_native_dict_simps)
qed

lemma dump_dicts_append:
  "dump_dicts (xs @ ys) =
     (case dump_dicts xs of
        Inl e \<Rightarrow> Inl e
      | Inr a \<Rightarrow> (case dump_dicts ys of Inl e \<Rightarrow> Inl e | Inr b \<Rightarrow> Inr (a @ b)))"
  unfolding dump_dicts_def by (simp add: collect_append)

lemma dump_dicts_dict:
  "json_dumps (PDict d) = Inr t \<Longrightarrow> dump_dicts xs = Inr xs' \<Longrightarrow> dump_dicts ys = Inr ys' \<Longrightarrow>
   dump_dicts (xs @ PDict d # ys) = Inr (xs' @ PStr t # ys')"
proof -
  assume j: "json_dumps (PDict d) = Inr t" and x: "dump_dicts xs = Inr xs'"
    and y: "dump_dicts ys = Inr ys'"
  have "dump_dicts (PDict d # ys) = Inr (PStr t # ys')"
    using j y by (simp add: dump_dicts_def)
  with x show ?thesis by (simp add: dump_dicts_append)
qed

lemma encode_value_dict:
  "json_dumps (PDict d) = Inr t \<Longrightarrow> str_encode t = Inr b \<Longrightarrow>
   encode_value pr (PDict d) = Inr (PBytes b)"
  by (simp add: encode_value_def)

text \<open>
  Claim C8. Whatever the value and whatever the connection does, no call that \<^verbatim>\<open>set\<close>,
  \<^verbatim>\<open>lpush\<close> or \<^verbatim>\<open>rpush\<close> makes carries a \<^verbatim>\<open>dict\<close>. A \<^verbatim>\<open>dict\<close> that \<^verbatim>\<open>json.dumps\<close>
  serializes reaches the store as its JSON text: as the bytes of the text in \<^verbatim>\<open>set\<close>, as
  the text in a push of the \<^verbatim>\<open>dict\<close> alone, and in its place among the other values in a
  push of a list (\<open>xs'\<close> and \<open>ys'\<close> are the values before and after it, their own dicts
  serialized). The first call is the write; an \<^verbatim>\<open>expire\<close> call may follow a push.
\<close>

theorem dict_sent_as_json:
  "no_native_dict (fst (snd (set_tool pr (Inr (traced r)) key v e ([], s)))) \<and>
   no_native_dict (fst (snd (lpush pr (Inr (traced r)) key v e ([], s)))) \<and>
   no_native_dict (fst (snd (rpush pr (Inr (traced r)) key v e ([], s)))) \<and>
   (json_dumps (PDict d) = Inr t \<and> str_encode t = Inr b \<and>
    dump_dicts xs = Inr xs' \<and> dump_dicts ys = Inr ys' \<longrightarrow>
      take 1 (fst (snd (set_tool pr (Inr (traced r)) key (PDict d) e ([], s)))) =
        [case ttl_of e of Some n \<Rightarrow> SETEX key n (PBytes b) | None \<Rightarrow> SET key (PBytes b)] \<and>
      take 1 (fst (snd (lpush pr (Inr (traced r)) key (PDict d) e ([], s)))) =
        [LPUSH key [PStr t]] \<and>
      take 1 (fst (snd (rpush pr (Inr (traced r)) key (PDict d) e ([], s)))) =
        [RPUSH key [PStr t]] \<and>
      take 1 (fst (snd (lpush pr (Inr (traced r)) key (PList (xs @ PDict d # ys)) e ([], s)))) =
        [LPUSH key (rev (xs' @ PStr t # ys'))] \<and>
      take 1 (fst (snd (rpush pr (Inr (traced r)) key (PList (xs @ PDict d # ys)) e ([], s)))) =
        [RPUSH key (xs' @ PStr t # ys')])"
proof -
  have sent: "take 1 (fst (snd (set_tool pr (Inr (traced r)) key (PDict d) e ([], s)))) =
        [case ttl_of e of Some n \<Rightarrow> SETEX key n (PBytes b) | None \<Rightarrow> SET key (PBytes b)] \<and>
      take 1 (fst (snd (lpush pr (Inr (traced r)) key (PDict d) e ([], s)))) =
        [LPUSH key [PStr t]] \<and>
      take 1 (fst (snd (rpush pr (Inr (traced r)) key (PDict d) e ([], s)))) =
        [RPUSH key [PStr t]] \<and>
      take 1 (fst (snd (lpush pr (Inr (traced r)) key (PList (xs @ PDict d # ys)) e ([], s)))) =
        [LPUSH key (rev (xs' @ PStr t # ys'))] \<and>
      take 1 (fst (snd (rpush pr (Inr (traced r)) key (PList (xs @ PDict d # ys)) e ([], s)))) =
        [RPUSH key (xs' @ PStr t # ys')]"
    if j: "json_dumps (PDict d) = Inr t" and b: "str_encode t = Inr b"
      and x: "dump_dicts xs = Inr xs'" and y: "dump_dicts ys = Inr ys'"
  proof -
    have 1: "push_args left (PDict d) = Inr [PStr t]" for left
      using j by (simp add: push_args_def)
    have 2: "push_args True (PList (xs @ PDict d # ys)) = Inr (rev (xs' @ PStr t # ys'))"
      using dump_dicts_dict[OF j x y] by (simp add: push_args_def)
    have 3: "push_args False (PList (xs @ PDict d # ys)) = Inr (xs' @ PStr t # ys')"
      using dump_dicts_dict[OF j x y] by (simp add: push_args_def)
    show ?thesis
      using set_tool_log[OF encode_value_dict[OF j b], of pr r key e "[]" s]
        lpush_log[OF 1, of pr r key e "[]" s] rpush_log[OF 1, of pr r key e "[]" s]
        lpush_log[OF 2, of pr r key e "[]" s] rpush_log[OF 3, of pr r key e "[]" s]
      by auto
  qed
  from set_tool_no_dict[of pr r key v e s] lpush_no_dict[of pr r key v e s]
    rpush_no_dict[of pr r key v e s] sent
  show ?thesis by blast
qed

text \<open>\<^verbatim>\<open>lpush("q", ["x", {"a": 1}, 2])\<close> pushes \<^verbatim>\<open>2\<close>, the JSON text, \<^verbatim>\<open>"x"\<close>, and
  \<^verbatim>\<open>set("q", {"a": 1})\<close> stores the bytes of the JSON text.\<close>

theorem dict_sent_as_json_witness:
  "json_dumps (PDict [(PStr (u ''a''), PInt 1)]) = Inr (u json_a1) \<and>
   str_encode (u json_a1) = Inr json_a1 \<and>
   dump_dicts [PStr (u ''x'')] = Inr [PStr (u ''x'')] \<and>
   dump_dicts [PInt 2] = Inr [PInt 2] \<and>
   take 1 (fst (snd (lpush plain_table (Inr (traced (redis_ref False sample_float_ops))) (u ''q'')
                       (PList ([PStr (u ''x'')] @ PDict [(PStr (u ''a''), PInt 1)] # [PInt 2])) None
                       ([], empty_store)))) =
     [LPUSH (u ''q'') (rev ([PStr (u ''x'')] @ PStr (u json_a1) # [PInt 2]))] \<and>
   take 1 (fst (snd (set_tool plain_table (Inr (traced (redis_ref False sample_float_ops))) (u ''q'')
                       (PDict [(PStr (u ''a''), PInt 1)]) None ([], empty_store)))) =
     [SET (u ''q'') (PBytes json_a1)]"
proof -
  have 1: "json_dumps (PDict [(PStr (u ''a''), PInt 1)]) = Inr (u json_a1)"
    by (simp add: json_a1_def u_def json_string_def json_char_def str_int_def digit_char_def)
  have 2: "str_encode (u json_a1) = Inr json_a1"
    by (rule str_encode_ascii) (simp add: ascii_def json_a1_def)
  have 3: "dump_dicts [PStr (u ''x'')] = Inr [PStr (u ''x'')]" by (simp add: dump_dicts_def)
  have 4: "dump_dicts [PInt 2] = Inr [PInt 2]" by (simp add: dump_dicts_def)
  from dict_sent_as_json[of plain_table "redis_ref False sample_float_ops" "u ''q''" _ None empty_store
      "[(PStr (u ''a''), PInt 1)]" "u json_a1" json_a1 "[PStr (u ''x'')]" "[PStr (u ''x'')]"
      "[PInt 2]" "[PInt 2]"] 1 2 3 4
  show ?thesis by simp
qed


section \<open>Decoding inverts encoding\<close>

lemma recompose3: "(c::nat) div 4096 * 4096 + c div 64 mod 64 * 64 + c mod 64 = c"
proof -
  have "c mod (64 * 64) = 64 * (c div 64 mod 64) + c mod 64"
    by (rule mod_mult2_eq)
  then have "c div 64 mod 64 * 64 + c mod 64 = c mod 4096" by simp
  moreover have "c div 4096 * 4096 + c mod 4096 = c" by simp
  ultimately show ?thesis by linarith
qed

lemma recompose4:
  "(c::nat) div 262144 * 262144 + c div 4096 mod 64 * 4096 + c div 64 mod 64 * 64 + c mod 64 = c"
proof -
  have "c mod (4096 * 64) = 4096 * (c div 4096 mod 64) + c mod 4096"
    by (rule mod_mult2_eq)
  then have "c div 4096 mod 64 * 4096 + c mod 4096 = c mod 262144" by simp
  moreover have "c div 4096 * 4096 + c div 64 mod 64 * 64 + c mod 64 = c"
    by (rule recompose3)
  moreover have "c div 4096 * 4096 + c mod 4096 = c" by simp
  moreover have "c div 262144 * 262144 + c mod 262144 = c" by simp
  ultimately show ?thesis by linarith
qed

lemma utf8_dec_enc_cp:
  "utf8_enc_cp c = Some bs \<Longrightarrow> utf8_dec (bs @ r) = map_option ((#) c) (utf8_dec r)"
  unfolding utf8_enc_cp_def
  by (auto split: if_splits simp: is_cont_def is_surrogate_def Let_def recompose3 recompose4)

lemma utf8_dec_enc: "utf8_enc s = Some bs \<Longrightarrow> utf8_dec bs = Some s"
proof (induction s arbitrary: bs)
  case Nil
  then show ?case by simp
next
  case (Cons c cs)
  then show ?case
    by (auto split: option.splits simp: utf8_dec_enc_cp)
qed

lemma utf8_enc_cp_byte: "utf8_enc_cp c = Some bs \<Longrightarrow> b \<in> set bs \<Longrightarrow> b < 256"
proof -
  assume e: "utf8_enc_cp c = Some bs" and b: "b \<in> set bs"
  have m: "c mod 64 < 64" "c div 64 mod 64 < 64" "c div 4096 mod 64 < 64" by simp_all
  have d2: "c < 2048 \<Longrightarrow> c div 64 < 32" by simp
  have d3: "c < 65536 \<Longrightarrow> c div 4096 < 16" by simp
  have d4: "c < 1114112 \<Longrightarrow> c div 262144 < 16" by simp
  from e b m show ?thesis
    unfolding utf8_enc_cp_def
    by (auto split: if_splits dest: d2 d3 d4)
qed

lemma utf8_enc_byte: "utf8_enc s = Some ns \<Longrightarrow> b \<in> set ns \<Longrightarrow> b < 256"
  by (induction s arbitrary: ns) (auto split: option.splits dest: utf8_enc_cp_byte)

lemma of_char_char_of_bytes:
  "(\<And>b. b \<in> set ns \<Longrightarrow> b < 256) \<Longrightarrow> map of_char (map char_of ns) = (ns :: nat list)"
  by (induction ns) simp_all

lemma decode_encode: "str_encode t = Inr b \<Longrightarrow> bytes_decode b = Inr t"
proof -
  assume "str_encode t = Inr b"
  then obtain ns where ns: "utf8_enc t = Some ns" and b: "b = map char_of ns"
    by (auto simp: str_encode_def split: option.splits)
  have "map of_char b = ns"
    unfolding b using utf8_enc_byte[OF ns] by (rule of_char_char_of_bytes)
  with utf8_dec_enc[OF ns] show ?thesis by (simp add: bytes_decode_def)
qed

lemma bytes_decode_Inl: "bytes_decode b = Inl e \<Longrightarrow> e = UnicodeDecodeError"
  by (auto simp: bytes_decode_def split: option.splits)

lemma below_ten: "(d::nat) < 10 \<Longrightarrow> d \<in> {0, 1, 2, 3, 4, 5, 6, 7, 8, 9}"
  by auto

lemma digit_char_code: "d < 10 \<Longrightarrow> (of_char (digit_char d) :: nat) = 48 + d"
  by (drule below_ten) (auto simp: digit_char_def)




text \<open>
  Claim C7. Whatever byte string the store replies to \<^verbatim>\<open>get\<close>, the tool returns: the
  decoded text when the bytes are valid UTF-8, the same bytes otherwise. The decoding
  step raises nothing: the tool returns a value, which is text or bytes and never a
  structured object. Bytes that are the UTF-8 encoding of a text come back as that text,
  so the JSON text stored for a dictionary comes back as the text.
\<close>

theorem get_decodes_bytes:
  "r_get r key s = (Inr (PBytes b), s') \<Longrightarrow>
   get_tool (Inr r) key s =
     (Inr (case utf8_dec (map of_char b) of Some text \<Rightarrow> PStr text | None \<Rightarrow> PBytes b), s') \<and>
   (\<exists>v. fst (get_tool (Inr r) key s) = Inr v \<and> \<not> isinstance_dict v \<and> (\<forall>xs. v \<noteq> PList xs)) \<and>
   (\<forall>t. str_encode t = Inr b \<longrightarrow> get_tool (Inr r) key s = (Inr (PStr t), s'))"
proof -
  assume reply: "r_get r key s = (Inr (PBytes b), s')"
  have shape: "get_tool (Inr r) key s =
     (Inr (case utf8_dec (map of_char b) of Some text \<Rightarrow> PStr text | None \<Rightarrow> PBytes b), s')"
    using reply by (auto simp: get_tool_def bytes_decode_def split: option.splits)
  have kind: "\<exists>v. fst (get_tool (Inr r) key s) = Inr v \<and> \<not> isinstance_dict v \<and>
      (\<forall>xs. v \<noteq> PList xs)"
    unfolding shape by (cases "utf8_dec (map of_char b)") simp_all
  have encoded: "get_tool (Inr r) key s = (Inr (PStr t), s')" if "str_encode t = Inr b" for t
  proof -
    from decode_encode[OF that] have "utf8_dec (map of_char b) = Some t"
      by (auto simp: bytes_decode_def split: option.splits)
    then show ?thesis by (simp add: shape)
  qed
  from shape kind encoded show ?thesis by blast
qed

text \<open>The stored byte \<^verbatim>\<open>0xFF\<close> is not UTF-8 and comes back as it is.\<close>

theorem get_decodes_bytes_witness:
  "r_get (redis_ref False sample_float_ops) (u ''k'') (put ''k'' (EString [CHR 0xFF]) empty_store) =
     (Inr (PBytes [CHR 0xFF]), put ''k'' (EString [CHR 0xFF]) empty_store) \<and>
   get_tool (Inr (redis_ref False sample_float_ops)) (u ''k'')
       (put ''k'' (EString [CHR 0xFF]) empty_store) =
     (Inr (PBytes [CHR 0xFF]), put ''k'' (EString [CHR 0xFF]) empty_store)"
proof -
  let ?s = "put ''k'' (EString [CHR 0xFF]) empty_store"
  have h: "r_get (redis_ref False sample_float_ops) (u ''k'') ?s = (Inr (PBytes [CHR 0xFF]), ?s)"
    by (simp add: redis_ref_def ref_get_def with_key_def str_encode_ascii ascii_def put_def
          reply_bytes_def)
  from get_decodes_bytes[OF h] h show ?thesis by simp
qed

section \<open>Reading a key of the reference store\<close>

lemma ref_get_absent:
  "str_encode key = Inr kb \<Longrightarrow> entries s kb = None \<Longrightarrow>
   get_tool (Inr (redis_ref dr fo)) key s = (Inr (PStr (does_not_exist key)), s)"
  by (simp add: get_tool_def redis_ref_def ref_get_def with_key_def does_not_exist_def)

lemma ref_get_text:
  "str_encode key = Inr kb \<Longrightarrow> entries s kb = Some (EString b) \<Longrightarrow> bytes_decode b = Inr t \<Longrightarrow>
   get_tool (Inr (redis_ref dr fo)) key s = (Inr (PStr t), s)"
  by (simp add: get_tool_def redis_ref_def ref_get_def with_key_def reply_bytes_def)

lemma ref_get_raw:
  "str_encode key = Inr kb \<Longrightarrow> entries s kb = Some (EString b) \<Longrightarrow> bytes_decode b = Inl e \<Longrightarrow>
   get_tool (Inr (redis_ref False fo)) key s = (Inr (PBytes b), s)"
  by (frule bytes_decode_Inl)
     (simp add: get_tool_def redis_ref_def ref_get_def with_key_def reply_bytes_def)

lemma ref_get_list:
  "str_encode key = Inr kb \<Longrightarrow> entries s kb = Some (EList xs) \<Longrightarrow>
   get_tool (Inr (redis_ref dr fo)) key s =
     (Inr (PStr (u ''Error retrieving key '' @ key @ u '': '' @
                 u ''WRONGTYPE Operation against a key holding the wrong kind of value'')), s)"
  by (simp add: get_tool_def redis_ref_def ref_get_def with_key_def wrongtype_def)

lemma does_not_exist_nonempty: "does_not_exist key \<noteq> []"
  by (simp add: does_not_exist_def u_def)

lemma error_not_sentinel:
  "u ''Error retrieving key '' @ x \<noteq> does_not_exist key"
  by (simp add: does_not_exist_def u_def)

text \<open>
  Claim C4, as the code has it. On the reference store \<^verbatim>\<open>get\<close> returns the "does not
  exist" message whenever the key is absent, and for a present byte string the decoded
  value: empty text for the empty value, which is never the message. The message is text
  like any other, so a present key gives it too when the stored bytes spell it: \<^verbatim>\<open>get\<close>
  returns the message exactly when the key is absent or holds the message itself.
\<close>

theorem get_sentinel:
  "str_encode key = Inr kb \<longrightarrow>
     (entries s kb = None \<longrightarrow>
        get_tool (Inr (redis_ref dr fo)) key s = (Inr (PStr (does_not_exist key)), s)) \<and>
     (\<forall>b t. entries s kb = Some (EString b) \<and> bytes_decode b = Inr t \<longrightarrow>
        get_tool (Inr (redis_ref dr fo)) key s = (Inr (PStr t), s)) \<and>
     (entries s kb = Some (EString []) \<longrightarrow>
        get_tool (Inr (redis_ref dr fo)) key s = (Inr (PStr []), s)) \<and>
     does_not_exist key \<noteq> [] \<and>
     (fst (get_tool (Inr (redis_ref False fo)) key s) = Inr (PStr (does_not_exist key)) \<longleftrightarrow>
        entries s kb = None \<or>
        (\<exists>b. entries s kb = Some (EString b) \<and> bytes_decode b = Inr (does_not_exist key)))"
proof (intro impI conjI allI)
  assume k: "str_encode key = Inr kb"
  show "entries s kb = None \<Longrightarrow>
      get_tool (Inr (redis_ref dr fo)) key s = (Inr (PStr (does_not_exist key)), s)"
    by (rule ref_get_absent[OF k])
  show "entries s kb = Some (EString b) \<and> bytes_decode b = Inr t \<Longrightarrow>
      get_tool (Inr (redis_ref dr fo)) key s = (Inr (PStr t), s)" for b t
    using ref_get_text[OF k] by blast
  have e: "bytes_decode [] = Inr []" by (simp add: bytes_decode_def)
  show "entries s kb = Some (EString []) \<Longrightarrow>
      get_tool (Inr (redis_ref dr fo)) key s = (Inr (PStr []), s)"
    using ref_get_text[OF k _ e] by blast
  show "does_not_exist key \<noteq> []" by (rule does_not_exist_nonempty)
  show "fst (get_tool (Inr (redis_ref False fo)) key s) = Inr (PStr (does_not_exist key)) \<longleftrightarrow>
        entries s kb = None \<or>
        (\<exists>b. entries s kb = Some (EString b) \<and> bytes_decode b = Inr (does_not_exist key))"
  proof (cases "entries s kb")
    case None
    then show ?thesis by (simp add: ref_get_absent[OF k])
  next
    case (Some en)
    show ?thesis
    proof (cases en)
      case (EString b)
      show ?thesis
      proof (cases "bytes_decode b")
        case (Inl x)
        with Some EString show ?thesis by (simp add: ref_get_raw[OF k])
      next
        case (Inr t)
        with Some EString show ?thesis by (simp add: ref_get_text[OF k])
      qed
    next
      case (EList xs)
      with Some show ?thesis
        using error_not_sentinel[of "key @ u '': '' @
                 u ''WRONGTYPE Operation against a key holding the wrong kind of value''" key]
        by (simp add: ref_get_list[OF k])
    qed
  qed
qed

lemma ref_set_tool:
  "str_encode key = Inr kb \<Longrightarrow> encode_value pr v = Inr (PBytes b) \<Longrightarrow> ttl_accepted e \<Longrightarrow>
   entries (snd (set_tool pr (Inr (redis_ref dr fo)) key v e s)) kb = Some (EString b)"
  by (cases "ttl_of e")
     (simp_all add: set_tool_def redis_ref_def ref_set_def ref_setex_def with_key_def
        ttl_accepted_def put_def)

lemma str_encode_k: "str_encode (u ''k'') = Inr ''k''"
  by (simp add: str_encode_ascii ascii_def)

lemma ascii_sentinel: "ascii sentinel_bytes"
  by (simp add: ascii_def sentinel_bytes_def)

lemma sentinel_k: "u sentinel_bytes = does_not_exist (u ''k'')"
  by (simp add: sentinel_bytes_def does_not_exist_def u_def)

text \<open>
  Claim C4 as stated fails: after \<^verbatim>\<open>set("k", "Key k does not exist")\<close> the key is present
  and \<^verbatim>\<open>get("k")\<close> returns the message of an absent key.
\<close>

theorem sentinel_for_present_key:
  "entries (snd (set_tool plain_table (Inr (redis_ref False sample_float_ops)) (u ''k'')
                   (PStr (u sentinel_bytes)) None empty_store)) ''k'' = Some (EString sentinel_bytes) \<and>
   fst (get_tool (Inr (redis_ref False sample_float_ops)) (u ''k'')
          (snd (set_tool plain_table (Inr (redis_ref False sample_float_ops)) (u ''k'')
                  (PStr (u sentinel_bytes)) None empty_store))) =
     Inr (PStr (does_not_exist (u ''k'')))"
proof -
  let ?s = "snd (set_tool plain_table (Inr (redis_ref False sample_float_ops)) (u ''k'')
                   (PStr (u sentinel_bytes)) None empty_store)"
  have enc: "encode_value plain_table (PStr (u sentinel_bytes)) = Inr (PBytes sentinel_bytes)"
    by (simp add: encode_value_def str_encode_ascii[OF ascii_sentinel])
  have st: "entries ?s ''k'' = Some (EString sentinel_bytes)"
    by (rule ref_set_tool[OF str_encode_k enc]) (simp add: ttl_accepted_def)
  have "bytes_decode sentinel_bytes = Inr (does_not_exist (u ''k''))"
    using bytes_decode_ascii[OF ascii_sentinel] by (simp add: sentinel_k)
  from ref_get_text[OF str_encode_k st this] st show ?thesis by simp
qed

text \<open>\<^verbatim>\<open>get("k")\<close> on the empty store, and on the store that holds the empty value.\<close>

theorem get_sentinel_witness:
  "str_encode (u ''k'') = Inr ''k'' \<and>
   entries empty_store ''k'' = None \<and>
   get_tool (Inr (redis_ref False sample_float_ops)) (u ''k'') empty_store =
     (Inr (PStr (does_not_exist (u ''k''))), empty_store) \<and>
   entries (put ''k'' (EString []) empty_store) ''k'' = Some (EString []) \<and>
   get_tool (Inr (redis_ref False sample_float_ops)) (u ''k'') (put ''k'' (EString []) empty_store) =
     (Inr (PStr []), put ''k'' (EString []) empty_store)"
proof -
  have 1: "entries empty_store ''k'' = None" by (simp add: empty_store_def)
  have 2: "entries (put ''k'' (EString []) empty_store) ''k'' = Some (EString [])"
    by (rule entries_put)
  from get_sentinel[of "u ''k''" "''k''" empty_store False sample_float_ops]
    get_sentinel[of "u ''k''" "''k''" "put ''k'' (EString []) empty_store" False sample_float_ops]
    str_encode_k 1 2
  show ?thesis by blast
qed


section \<open>Writing and reading back\<close>












section \<open>Pushing a list of values\<close>

lemma collect_map_Inr: "collect (map Inr ys) = Inr ys"
  by (induction ys) simp_all

lemma collect_Inr_iff: "collect rs = Inr ys \<longleftrightarrow> rs = map Inr ys"
proof
  assume "collect rs = Inr ys"
  then have "list_all2 (\<lambda>r y. r = Inr y) rs ys" by (rule collect_Inr_all2)
  then show "rs = map Inr ys" by (induction rule: list_all2_induct) simp_all
next
  assume "rs = map Inr ys"
  then show "collect rs = Inr ys" by (simp add: collect_map_Inr)
qed

lemma stored_dump:
  "collect (map stored_form L) = Inr bs \<Longrightarrow>
   \<exists>vals. dump_dicts L = Inr vals \<and> collect (map client_encode vals) = Inr bs"
proof (induction L arbitrary: bs)
  case Nil
  then show ?case by (simp add: dump_dicts_def)
next
  case (Cons v L)
  from Cons.prems obtain b bs' where b: "stored_form v = Inr b"
    and r: "collect (map stored_form L) = Inr bs'" and bs: "bs = b # bs'"
    by (cases "stored_form v") (auto split: sum.splits)
  from Cons.IH[OF r] obtain vals where d: "dump_dicts L = Inr vals"
    and c: "collect (map client_encode vals) = Inr bs'" by blast
  from b obtain w where w: "(if isinstance_dict v
                       then (case json_dumps v of Inl e \<Rightarrow> Inl e | Inr t \<Rightarrow> Inr (PStr t))
                       else Inr v) = Inr w" and cw: "client_encode w = Inr b"
    by (auto simp: stored_form_def split: if_splits sum.splits)
  have "dump_dicts (v # L) = Inr (w # vals)"
    using w d unfolding dump_dicts_def by simp
  moreover have "collect (map client_encode (w # vals)) = Inr (b # bs')"
    using cw c by simp
  ultimately show ?case using bs by blast
qed

lemma collect_rev:
  "collect (map f xs) = Inr ys \<Longrightarrow> collect (map f (rev xs)) = Inr (rev ys)"
proof -
  assume "collect (map f xs) = Inr ys"
  then have "map f xs = map Inr ys" by (simp add: collect_Inr_iff)
  then have "rev (map f xs) = rev (map Inr ys)" by simp
  then show ?thesis by (simp add: collect_Inr_iff rev_map)
qed

lemma ref_push_fresh:
  "str_encode name = Inr kb \<Longrightarrow> entries s kb = None \<Longrightarrow>
   collect (map client_encode args) = Inr bs \<Longrightarrow> bs \<noteq> [] \<Longrightarrow>
   ref_push left name args s =
     (Inr (PInt (int (length bs))), put kb (EList (if left then rev bs else bs)) s)"
  by (simp add: ref_push_def with_key_def Let_def)

lemma then_expire_ref:
  "str_encode name = Inr kb \<Longrightarrow> ttl_accepted e \<Longrightarrow> entries s' kb = Some en \<Longrightarrow>
   entries (snd (then_expire (redis_ref dr fo) name e done (Inr n, s'))) kb = Some en"
  by (cases "ttl_of e")
     (simp_all add: then_expire_def redis_ref_def ref_expire_def with_key_def ttl_accepted_def)

lemma push_args_list:
  "dump_dicts L = Inr vals \<Longrightarrow> push_args left (PList L) = Inr (if left then rev vals else vals)"
  by (simp add: push_args_def)

lemma lpush_ref_state:
  assumes k: "str_encode name = Inr kb" and fresh: "entries s kb = None"
    and d: "dump_dicts L = Inr vals" and c: "collect (map client_encode vals) = Inr bs"
    and ne: "bs \<noteq> []" and e: "ttl_accepted e"
  shows "entries (snd (lpush pr (Inr (redis_ref dr fo)) name (PList L) e s)) kb = Some (EList bs)"
proof -
  have p: "r_lpush (redis_ref dr fo) name (rev vals) s =
      (Inr (PInt (int (length (rev bs)))), put kb (EList bs) s)"
    using ref_push_fresh[OF k fresh collect_rev[OF c], of True] ne
    by (simp add: redis_ref_def)
  have "entries (snd (then_expire (redis_ref dr fo) name e msg
                        (Inr (PInt (int (length (rev bs)))), put kb (EList bs) s))) kb =
          Some (EList bs)" for msg
    by (rule then_expire_ref[OF k e entries_put])
  then show ?thesis
    by (simp add: lpush_def push_args_list[OF d] p snd_except)
qed

lemma rpush_ref_state:
  assumes k: "str_encode name = Inr kb" and fresh: "entries s kb = None"
    and d: "dump_dicts L = Inr vals" and c: "collect (map client_encode vals) = Inr bs"
    and ne: "bs \<noteq> []" and e: "ttl_accepted e"
  shows "entries (snd (rpush pr (Inr (redis_ref dr fo)) name (PList L) e s)) kb = Some (EList bs)"
proof -
  have p: "r_rpush (redis_ref dr fo) name vals s =
      (Inr (PInt (int (length bs))), put kb (EList bs) s)"
    using ref_push_fresh[OF k fresh c ne, of False]
    by (simp add: redis_ref_def)
  have "entries (snd (then_expire (redis_ref dr fo) name e msg
                        (Inr (PInt (int (length bs))), put kb (EList bs) s))) kb =
          Some (EList bs)" for msg
    by (rule then_expire_ref[OF k e entries_put])
  then show ?thesis
    by (simp add: rpush_def push_args_list[OF d] p snd_except)
qed

lemma range_slice_all: "xs \<noteq> [] \<Longrightarrow> range_slice 0 (- 1) xs = xs"
  by (cases xs) (simp_all add: range_slice_def Let_def)

lemma replies_decoded:
  "collect (map bytes_decode bs) = Inr ts \<Longrightarrow>
   collect (map (reply_bytes True) bs) = Inr (map PStr ts)"
  by (induction bs arbitrary: ts) (auto simp: reply_bytes_def split: sum.splits)

lemma json_dumps_texts: "collect (map json_dumps (map PStr ts)) = Inr (map json_string ts)"
  by (induction ts) simp_all

lemma collect_length: "collect rs = Inr ys \<Longrightarrow> length ys = length rs"
  by (simp add: collect_Inr_iff)

lemma lrange_ref_all:
  assumes k: "str_encode name = Inr kb" and en: "entries s' kb = Some (EList bs)"
    and ne: "bs \<noteq> []" and dec: "collect (map bytes_decode bs) = Inr ts"
  shows "lrange (Inr (redis_ref True fo)) name 0 (- 1) s' =
           (Inr (PStr (u ''['' @ join (u '', '') (map json_string ts) @ u '']'')), s')"
proof -
  from collect_length[OF dec] ne have "ts \<noteq> []" by auto
  then show ?thesis
    using json_dumps_texts[of ts]
    by (simp add: lrange_def redis_ref_def ref_lrange_def with_key_def k en
          range_slice_all[OF ne] replies_decoded[OF dec] del: map_map)
qed

lemma push_empty_state:
  "str_encode name = Inr kb \<Longrightarrow>
   snd (lpush pr (Inr (redis_ref dr fo)) name (PList []) e s) = s \<and>
   snd (rpush pr (Inr (redis_ref dr fo)) name (PList []) e s) = s"
  by (simp add: lpush_def rpush_def empty_push_args then_expire_def redis_ref_def ref_push_def
        with_key_def wrong_arity_def)

lemma lrange_ref_absent:
  "str_encode name = Inr kb \<Longrightarrow> entries s kb = None \<Longrightarrow>
   lrange (Inr (redis_ref dr fo)) name i j s = (Inr (empty_or_missing name), s)"
  by (simp add: lrange_def redis_ref_def ref_lrange_def with_key_def)

lemma replies_raw: "collect (map (reply_bytes False) bs) = Inr (map PBytes bs)"
  by (induction bs) (simp_all add: reply_bytes_def)

lemma json_dumps_bytes_list:
  "bs \<noteq> [] \<Longrightarrow>
   json_dumps (PList (map PBytes bs)) =
     Inl (TypeError (u ''Object of type bytes is not JSON serializable''))"
  by (cases bs) simp_all

lemma lrange_ref_raw:
  assumes k: "str_encode name = Inr kb" and en: "entries s' kb = Some (EList bs)"
    and ne: "bs \<noteq> []"
  shows "fst (lrange (Inr (redis_ref False fo)) name 0 (- 1) s') =
           Inl (TypeError (u ''Object of type bytes is not JSON serializable''))"
  using json_dumps_bytes_list[OF ne] ne
  by (simp add: lrange_def redis_ref_def ref_lrange_def with_key_def k en
        range_slice_all[OF ne] replies_raw del: json_dumps.simps)

lemma replies_undecodable:
  "collect (map bytes_decode bs) = Inl x \<Longrightarrow> collect (map (reply_bytes True) bs) = Inl x"
  by (induction bs) (auto simp: reply_bytes_def split: sum.splits)

lemma lrange_ref_undecodable:
  assumes k: "str_encode name = Inr kb" and en: "entries s' kb = Some (EList bs)"
    and ne: "bs \<noteq> []" and dec: "collect (map bytes_decode bs) = Inl x"
  shows "fst (lrange (Inr (redis_ref True fo)) name 0 (- 1) s') = Inl x"
proof (cases x)
  case (RedisError m)
  from collect_Inl[OF dec] obtain b where "bytes_decode b = Inl x" by auto
  from bytes_decode_Inl[OF this] RedisError show ?thesis by simp
qed (simp_all add: lrange_def redis_ref_def ref_lrange_def with_key_def k en
       range_slice_all[OF ne] replies_undecodable[OF dec])

lemma stored_abc: "collect (map stored_form abc) = Inr [''a'', ''b'', ''c'']"
  by (simp add: abc_def stored_form_def str_encode_ascii ascii_def)

lemma decoded_abc: "collect (map bytes_decode [''a'', ''b'', ''c'']) = Inr [u ''a'', u ''b'', u ''c'']"
  by (simp add: bytes_decode_ascii ascii_def)

lemma stored_ff: "collect (map stored_form [PBytes [CHR 0xFF]]) = Inr [[CHR 0xFF]]"
  by (simp add: stored_form_def)

lemma dump_ff: "dump_dicts [PBytes [CHR 0xFF]] = Inr [PBytes [CHR 0xFF]]"
  by (simp add: dump_dicts_def)

lemma encoded_ff: "collect (map client_encode [PBytes [CHR 0xFF]]) = Inr [[CHR 0xFF]]"
  by simp

lemma undecodable_ff: "collect (map bytes_decode [[CHR 0xFF]]) = Inl UnicodeDecodeError"
  by (simp add: bytes_decode_def)

text \<open>
  Claim C2, as the code has it. Let the key hold nothing, and let \<open>L\<close> be a list of
  values that all encode, as the bytes \<open>bs\<close>, one for each value in the order of \<open>L\<close>.
  Then after \<^verbatim>\<open>lpush(k, L)\<close> and after \<^verbatim>\<open>rpush(k, L)\<close> alike the list stored at the key is
  \<open>bs\<close>, in the order of \<open>L\<close>; for the empty \<open>L\<close> the push is rejected and the key still
  holds nothing. On every connection \<^verbatim>\<open>lpush\<close> makes the head push with the values
  reversed and \<^verbatim>\<open>rpush\<close> the tail push with the values as they are. What
  \<^verbatim>\<open>lrange(k, 0, -1)\<close> then does depends on the connection and on the elements. On a
  connection that decodes its replies it returns the JSON array of the stored texts in
  the order of \<open>L\<close> when every element is valid UTF-8 (the "empty or does not exist"
  message for the empty \<open>L\<close>), and raises the decoding error of the first element that is
  not. On a connection that replies bytes it raises the \<^verbatim>\<open>TypeError\<close> of \<^verbatim>\<open>json.dumps\<close> for
  every non-empty \<open>L\<close>.
\<close>

theorem push_keeps_order:
  "str_encode name = Inr kb \<and> entries s kb = None \<and>
   collect (map stored_form L) = Inr bs \<and> ttl_accepted e \<longrightarrow>
     entries (snd (lpush pr (Inr (redis_ref dr fo)) name (PList L) e s)) kb =
       (if L = [] then None else Some (EList bs)) \<and>
     entries (snd (rpush pr (Inr (redis_ref dr fo)) name (PList L) e s)) kb =
       (if L = [] then None else Some (EList bs)) \<and>
     list_all2 (\<lambda>v b. stored_form v = Inr b) L bs \<and>
     (\<exists>vals. dump_dicts L = Inr vals \<and>
        take 1 (fst (snd (lpush pr (Inr (traced r)) name (PList L) e ([], s0)))) =
          [LPUSH name (rev vals)] \<and>
        take 1 (fst (snd (rpush pr (Inr (traced r)) name (PList L) e ([], s0)))) =
          [RPUSH name vals]) \<and>
     (\<forall>ts. collect (map bytes_decode bs) = Inr ts \<longrightarrow>
        fst (lrange (Inr (redis_ref True fo)) name 0 (- 1)
               (snd (lpush pr (Inr (redis_ref True fo)) name (PList L) e s))) =
          Inr (if L = [] then empty_or_missing name
               else PStr (u ''['' @ join (u '', '') (map json_string ts) @ u '']'')) \<and>
        fst (lrange (Inr (redis_ref True fo)) name 0 (- 1)
               (snd (rpush pr (Inr (redis_ref True fo)) name (PList L) e s))) =
          Inr (if L = [] then empty_or_missing name
               else PStr (u ''['' @ join (u '', '') (map json_string ts) @ u '']''))) \<and>
     (\<forall>x. collect (map bytes_decode bs) = Inl x \<longrightarrow>
        fst (lrange (Inr (redis_ref True fo)) name 0 (- 1)
               (snd (lpush pr (Inr (redis_ref True fo)) name (PList L) e s))) = Inl x \<and>
        fst (lrange (Inr (redis_ref True fo)) name 0 (- 1)
               (snd (rpush pr (Inr (redis_ref True fo)) name (PList L) e s))) = Inl x) \<and>
     (L \<noteq> [] \<longrightarrow>
        fst (lrange (Inr (redis_ref False fo)) name 0 (- 1)
               (snd (lpush pr (Inr (redis_ref False fo)) name (PList L) e s))) =
          Inl (TypeError (u ''Object of type bytes is not JSON serializable'')) \<and>
        fst (lrange (Inr (redis_ref False fo)) name 0 (- 1)
               (snd (rpush pr (Inr (redis_ref False fo)) name (PList L) e s))) =
          Inl (TypeError (u ''Object of type bytes is not JSON serializable'')))"
proof (intro impI; elim conjE)
  assume k: "str_encode name = Inr kb" and fresh: "entries s kb = None"
    and sf: "collect (map stored_form L) = Inr bs" and e: "ttl_accepted e"
  from stored_dump[OF sf] obtain vals where d: "dump_dicts L = Inr vals"
    and c: "collect (map client_encode vals) = Inr bs" by blast
  have order: "list_all2 (\<lambda>v b. stored_form v = Inr b) L bs"
    using collect_Inr_all2[OF sf] by (simp add: list_all2_map1)
  have sent: "take 1 (fst (snd (lpush pr (Inr (traced r)) name (PList L) e ([], s0)))) =
          [LPUSH name (rev vals)] \<and>
        take 1 (fst (snd (rpush pr (Inr (traced r)) name (PList L) e ([], s0)))) =
          [RPUSH name vals]"
    using lpush_log[OF push_args_list[OF d, of True], of pr r name e "[]" s0]
      rpush_log[OF push_args_list[OF d, of False], of pr r name e "[]" s0]
    by auto
  show "entries (snd (lpush pr (Inr (redis_ref dr fo)) name (PList L) e s)) kb =
       (if L = [] then None else Some (EList bs)) \<and>
     entries (snd (rpush pr (Inr (redis_ref dr fo)) name (PList L) e s)) kb =
       (if L = [] then None else Some (EList bs)) \<and>
     list_all2 (\<lambda>v b. stored_form v = Inr b) L bs \<and>
     (\<exists>vals. dump_dicts L = Inr vals \<and>
        take 1 (fst (snd (lpush pr (Inr (traced r)) name (PList L) e ([], s0)))) =
          [LPUSH name (rev vals)] \<and>
        take 1 (fst (snd (rpush pr (Inr (traced r)) name (PList L) e ([], s0)))) =
          [RPUSH name vals]) \<and>
     (\<forall>ts. collect (map bytes_decode bs) = Inr ts \<longrightarrow>
        fst (lrange (Inr (redis_ref True fo)) name 0 (- 1)
               (snd (lpush pr (Inr (redis_ref True fo)) name (PList L) e s))) =
          Inr (if L = [] then empty_or_missing name
               else PStr (u ''['' @ join (u '', '') (map json_string ts) @ u '']'')) \<and>
        fst (lrange (Inr (redis_ref True fo)) name 0 (- 1)
               (snd (rpush pr (Inr (redis_ref True fo)) name (PList L) e s))) =
          Inr (if L = [] then empty_or_missing name
               else PStr (u ''['' @ join (u '', '') (map json_string ts) @ u '']''))) \<and>
     (\<forall>x. collect (map bytes_decode bs) = Inl x \<longrightarrow>
        fst (lrange (Inr (redis_ref True fo)) name 0 (- 1)
               (snd (lpush pr (Inr (redis_ref True fo)) name (PList L) e s))) = Inl x \<and>
        fst (lrange (Inr (redis_ref True fo)) name 0 (- 1)
               (snd (rpush pr (Inr (redis_ref True fo)) name (PList L) e s))) = Inl x) \<and>
     (L \<noteq> [] \<longrightarrow>
        fst (lrange (Inr (redis_ref False fo)) name 0 (- 1)
               (snd (lpush pr (Inr (redis_ref False fo)) name (PList L) e s))) =
          Inl (TypeError (u ''Object of type bytes is not JSON serializable'')) \<and>
        fst (lrange (Inr (redis_ref False fo)) name 0 (- 1)
               (snd (rpush pr (Inr (redis_ref False fo)) name (PList L) e s))) =
          Inl (TypeError (u ''Object of type bytes is not JSON serializable'')))"
  proof (cases "L = []")
    case True
    have st: "snd (lpush pr (Inr (redis_ref dr' fo)) name (PList []) e s) = s"
      "snd (rpush pr (Inr (redis_ref dr' fo)) name (PList []) e s) = s" for dr'
      using push_empty_state[OF k, of pr dr' fo e s] by simp_all
    from True sf have bs: "bs = []" by simp
    from True order sent d show ?thesis
      by (simp add: st fresh bs lrange_ref_absent[OF k fresh])
  next
    case False
    from collect_length[OF sf] False have ne: "bs \<noteq> []" by auto
    have lst: "entries (snd (lpush pr (Inr (redis_ref dr' fo)) name (PList L) e s)) kb =
        Some (EList bs)" for dr'
      by (rule lpush_ref_state[OF k fresh d c ne e])
    have rst: "entries (snd (rpush pr (Inr (redis_ref dr' fo)) name (PList L) e s)) kb =
        Some (EList bs)" for dr'
      by (rule rpush_ref_state[OF k fresh d c ne e])
    have good: "fst (lrange (Inr (redis_ref True fo)) name 0 (- 1)
               (snd (lpush pr (Inr (redis_ref True fo)) name (PList L) e s))) =
          Inr (PStr (u ''['' @ join (u '', '') (map json_string ts) @ u '']'')) \<and>
        fst (lrange (Inr (redis_ref True fo)) name 0 (- 1)
               (snd (rpush pr (Inr (redis_ref True fo)) name (PList L) e s))) =
          Inr (PStr (u ''['' @ join (u '', '') (map json_string ts) @ u '']''))"
      if dec: "collect (map bytes_decode bs) = Inr ts" for ts
      by (simp add: lrange_ref_all[OF k lst ne dec] lrange_ref_all[OF k rst ne dec])
    have bad: "fst (lrange (Inr (redis_ref True fo)) name 0 (- 1)
               (snd (lpush pr (Inr (redis_ref True fo)) name (PList L) e s))) = Inl x \<and>
        fst (lrange (Inr (redis_ref True fo)) name 0 (- 1)
               (snd (rpush pr (Inr (redis_ref True fo)) name (PList L) e s))) = Inl x"
      if dec: "collect (map bytes_decode bs) = Inl x" for x
      by (simp add: lrange_ref_undecodable[OF k lst ne dec] lrange_ref_undecodable[OF k rst ne dec])
    have raw: "fst (lrange (Inr (redis_ref False fo)) name 0 (- 1)
               (snd (lpush pr (Inr (redis_ref False fo)) name (PList L) e s))) =
          Inl (TypeError (u ''Object of type bytes is not JSON serializable'')) \<and>
        fst (lrange (Inr (redis_ref False fo)) name 0 (- 1)
               (snd (rpush pr (Inr (redis_ref False fo)) name (PList L) e s))) =
          Inl (TypeError (u ''Object of type bytes is not JSON serializable''))"
      by (simp add: lrange_ref_raw[OF k lst ne] lrange_ref_raw[OF k rst ne])
    from False lst[of dr] rst[of dr] order d sent good bad raw show ?thesis
      by (simp only: if_False) blast
  qed
qed

text \<open>\<^verbatim>\<open>lpush("q", ["a", "b", "c"])\<close> and \<^verbatim>\<open>rpush\<close> of the same on the empty store, and the
  text \<^verbatim>\<open>["a", "b", "c"]\<close> that \<^verbatim>\<open>lrange("q", 0, -1)\<close> returns.\<close>

theorem push_keeps_order_witness:
  "str_encode (u ''q'') = Inr ''q'' \<and> entries empty_store ''q'' = None \<and>
   collect (map stored_form abc) = Inr [''a'', ''b'', ''c''] \<and> ttl_accepted None \<and>
   collect (map bytes_decode [''a'', ''b'', ''c'']) = Inr [u ''a'', u ''b'', u ''c''] \<and>
   entries (snd (lpush plain_table (Inr (redis_ref True sample_float_ops)) (u ''q'') (PList abc) None
                   empty_store)) ''q'' = Some (EList [''a'', ''b'', ''c'']) \<and>
   entries (snd (rpush plain_table (Inr (redis_ref True sample_float_ops)) (u ''q'') (PList abc) None
                   empty_store)) ''q'' = Some (EList [''a'', ''b'', ''c'']) \<and>
   fst (lrange (Inr (redis_ref True sample_float_ops)) (u ''q'') 0 (- 1)
          (snd (lpush plain_table (Inr (redis_ref True sample_float_ops)) (u ''q'') (PList abc) None
                  empty_store))) =
     Inr (PStr (u ''['' @ join (u '', '') (map json_string [u ''a'', u ''b'', u ''c'']) @ u '']'')) \<and>
   u ''['' @ join (u '', '') (map json_string [u ''a'', u ''b'', u ''c'']) @ u '']'' =
     [91, 34, 97, 34, 44, 32, 34, 98, 34, 44, 32, 34, 99, 34, 93]"
proof -
  have 1: "entries empty_store ''q'' = None" by (simp add: empty_store_def)
  have 2: "abc \<noteq> []" by (simp add: abc_def)
  have 3: "ttl_accepted None" by (simp add: ttl_accepted_def)
  have 4: "u ''['' @ join (u '', '') (map json_string [u ''a'', u ''b'', u ''c'']) @ u '']'' =
     [91, 34, 97, 34, 44, 32, 34, 98, 34, 44, 32, 34, 99, 34, 93]"
    by (simp add: u_def json_string_def json_char_def)
  from push_keeps_order[of "u ''q''" "''q''" empty_store abc "[''a'', ''b'', ''c'']" None plain_table
      True sample_float_ops "redis_ref True sample_float_ops" empty_store]
    str_encode_q 1 3 stored_abc decoded_abc
  have "entries (snd (lpush plain_table (Inr (redis_ref True sample_float_ops)) (u ''q'') (PList abc) None
                   empty_store)) ''q'' = (if abc = [] then None else Some (EList [''a'', ''b'', ''c''])) \<and>
   entries (snd (rpush plain_table (Inr (redis_ref True sample_float_ops)) (u ''q'') (PList abc) None
                   empty_store)) ''q'' = (if abc = [] then None else Some (EList [''a'', ''b'', ''c''])) \<and>
   fst (lrange (Inr (redis_ref True sample_float_ops)) (u ''q'') 0 (- 1)
          (snd (lpush plain_table (Inr (redis_ref True sample_float_ops)) (u ''q'') (PList abc) None
                  empty_store))) =
     Inr (if abc = [] then empty_or_missing (u ''q'')
          else PStr (u ''['' @ join (u '', '') (map json_string [u ''a'', u ''b'', u ''c'']) @ u '']''))"
    by blast
  with 2 have "entries (snd (lpush plain_table (Inr (redis_ref True sample_float_ops)) (u ''q'') (PList abc) None
                   empty_store)) ''q'' = Some (EList [''a'', ''b'', ''c'']) \<and>
   entries (snd (rpush plain_table (Inr (redis_ref True sample_float_ops)) (u ''q'') (PList abc) None
                   empty_store)) ''q'' = Some (EList [''a'', ''b'', ''c'']) \<and>
   fst (lrange (Inr (redis_ref True sample_float_ops)) (u ''q'') 0 (- 1)
          (snd (lpush plain_table (Inr (redis_ref True sample_float_ops)) (u ''q'') (PList abc) None
                  empty_store))) =
     Inr (PStr (u ''['' @ join (u '', '') (map json_string [u ''a'', u ''b'', u ''c'']) @ u '']''))"
    by (simp only: if_False) 
  with str_encode_q 1 3 4 stored_abc decoded_abc show ?thesis by blast
qed

text \<open>
  Claim C2 as stated fails: after \<^verbatim>\<open>rpush("q", [b"\xff"])\<close> on the empty store the list
  holds the element, and \<^verbatim>\<open>lrange("q", 0, -1)\<close> returns nothing: it raises
  \<^verbatim>\<open>UnicodeDecodeError\<close> on a connection that decodes its replies and \<^verbatim>\<open>TypeError\<close> on one
  that replies bytes, where it raises after \<^verbatim>\<open>lpush("q", ["a", "b", "c"])\<close> too.
\<close>

theorem lrange_raises_after_push:
  "entries (snd (rpush plain_table (Inr (redis_ref True sample_float_ops)) (u ''q'')
                   (PList [PBytes [CHR 0xFF]]) None empty_store)) ''q'' =
     Some (EList [[CHR 0xFF]]) \<and>
   fst (lrange (Inr (redis_ref True sample_float_ops)) (u ''q'') 0 (- 1)
          (snd (rpush plain_table (Inr (redis_ref True sample_float_ops)) (u ''q'')
                  (PList [PBytes [CHR 0xFF]]) None empty_store))) = Inl UnicodeDecodeError \<and>
   fst (lrange (Inr (redis_ref False sample_float_ops)) (u ''q'') 0 (- 1)
          (snd (rpush plain_table (Inr (redis_ref False sample_float_ops)) (u ''q'')
                  (PList [PBytes [CHR 0xFF]]) None empty_store))) =
     Inl (TypeError (u ''Object of type bytes is not JSON serializable'')) \<and>
   fst (lrange (Inr (redis_ref False sample_float_ops)) (u ''q'') 0 (- 1)
          (snd (lpush plain_table (Inr (redis_ref False sample_float_ops)) (u ''q'')
                  (PList abc) None empty_store))) =
     Inl (TypeError (u ''Object of type bytes is not JSON serializable''))"
proof -
  have fresh: "entries empty_store ''q'' = None" by (simp add: empty_store_def)
  have ok: "ttl_accepted None" by (simp add: ttl_accepted_def)
  have st: "entries (snd (rpush plain_table (Inr (redis_ref dr sample_float_ops)) (u ''q'')
                   (PList [PBytes [CHR 0xFF]]) None empty_store)) ''q'' =
     Some (EList [[CHR 0xFF]])" for dr
    by (rule rpush_ref_state[OF str_encode_q fresh dump_ff encoded_ff _ ok]) simp
  from stored_dump[OF stored_abc] obtain vals where d: "dump_dicts abc = Inr vals"
    and c: "collect (map client_encode vals) = Inr [''a'', ''b'', ''c'']" by blast
  have sa: "entries (snd (lpush plain_table (Inr (redis_ref False sample_float_ops)) (u ''q'')
                   (PList abc) None empty_store)) ''q'' = Some (EList [''a'', ''b'', ''c''])"
    by (rule lpush_ref_state[OF str_encode_q fresh d c _ ok]) simp
  have 1: "fst (lrange (Inr (redis_ref True sample_float_ops)) (u ''q'') 0 (- 1)
          (snd (rpush plain_table (Inr (redis_ref True sample_float_ops)) (u ''q'')
                  (PList [PBytes [CHR 0xFF]]) None empty_store))) = Inl UnicodeDecodeError"
    by (rule lrange_ref_undecodable[OF str_encode_q st _ undecodable_ff]) simp
  have 2: "fst (lrange (Inr (redis_ref False sample_float_ops)) (u ''q'') 0 (- 1)
          (snd (rpush plain_table (Inr (redis_ref False sample_float_ops)) (u ''q'')
                  (PList [PBytes [CHR 0xFF]]) None empty_store))) =
     Inl (TypeError (u ''Object of type bytes is not JSON serializable''))"
    by (rule lrange_ref_raw[OF str_encode_q st]) simp
  have 3: "fst (lrange (Inr (redis_ref False sample_float_ops)) (u ''q'') 0 (- 1)
          (snd (lpush plain_table (Inr (redis_ref False sample_float_ops)) (u ''q'')
                  (PList abc) None empty_store))) =
     Inl (TypeError (u ''Object of type bytes is not JSON serializable''))"
    by (rule lrange_ref_raw[OF str_encode_q sa]) simp
  from st[of True] 1 2 3 show ?thesis by blast
qed

section \<open>Decimal texts\<close>

lemma is_digit_digit_char: "d < 10 \<Longrightarrow> is_digit (digit_char d)"
  by (simp add: is_digit_def digit_char_code)

lemma digits_value_append:
  "digits_value acc (xs @ ys) =
     (case digits_value acc xs of None \<Rightarrow> None | Some a \<Rightarrow> digits_value a ys)"
  by (induction xs arbitrary: acc) simp_all

lemma digits_value_digit: "d < 10 \<Longrightarrow> digits_value acc [digit_char d] = Some (acc * 10 + d)"
  by (simp add: digit_char_code)

lemma str_nat_digits: "list_all is_digit (str_nat n)"
proof (induction n rule: str_nat.induct)
  case (1 n)
  show ?case
  proof (cases "n < 10")
    case True
    then show ?thesis by (simp add: is_digit_digit_char)
  next
    case False
    with 1 show ?thesis
      by (subst str_nat.simps) (simp add: is_digit_digit_char)
  qed
qed

lemma str_nat_nonempty: "str_nat n \<noteq> []"
  by (subst str_nat.simps) simp

lemma digits_value_str_nat:
  "digits_value acc (str_nat n) = Some (acc * 10 ^ length (str_nat n) + n)"
proof (induction n arbitrary: acc rule: str_nat.induct)
  case (1 n)
  show ?case
  proof (cases "n < 10")
    case True
    then have "str_nat n = [digit_char n]" by simp
    with True show ?thesis by (simp only: digits_value_digit) simp
  next
    case False
    have s: "str_nat n = str_nat (n div 10) @ [digit_char (n mod 10)]"
      using False by (subst str_nat.simps) simp
    have ih: "digits_value acc (str_nat (n div 10)) =
        Some (acc * 10 ^ length (str_nat (n div 10)) + n div 10)"
      using 1 False by simp
    have d: "digits_value a [digit_char (n mod 10)] = Some (a * 10 + n mod 10)" for a
      by (rule digits_value_digit) simp
    have "digits_value acc (str_nat n) =
        Some ((acc * 10 ^ length (str_nat (n div 10)) + n div 10) * 10 + n mod 10)"
      unfolding s by (simp only: digits_value_append ih option.case d)
    also have "(acc * 10 ^ length (str_nat (n div 10)) + n div 10) * 10 + n mod 10 =
        acc * 10 ^ length (str_nat n) + n"
      unfolding s by (simp add: algebra_simps)
    finally show ?thesis .
  qed
qed

lemma pad_digits_length: "length (pad_digits k n) = k"
  by (induction k arbitrary: n) simp_all

lemma pad_digits_digits: "list_all is_digit (pad_digits k n)"
  by (induction k arbitrary: n) (simp_all add: is_digit_digit_char)

lemma digits_value_pad: "digits_value acc (pad_digits k n) = Some (acc * 10 ^ k + n mod 10 ^ k)"
proof (induction k arbitrary: acc n)
  case 0
  then show ?case by simp
next
  case (Suc k)
  have m: "n mod 10 ^ Suc k = (n div 10 mod 10 ^ k) * 10 + n mod 10"
    by (simp add: mod_mult2_eq)
  have d: "digits_value a [digit_char (n mod 10)] = Some (a * 10 + n mod 10)" for a
    by (rule digits_value_digit) simp
  have "digits_value acc (pad_digits (Suc k) n) =
      Some ((acc * 10 ^ k + n div 10 mod 10 ^ k) * 10 + n mod 10)"
    by (simp only: pad_digits.simps digits_value_append Suc option.case d)
  also have "(acc * 10 ^ k + n div 10 mod 10 ^ k) * 10 + n mod 10 =
      acc * 10 ^ Suc k + n mod 10 ^ Suc k"
    unfolding m by (simp add: algebra_simps)
  finally show ?case .
qed

lemma digit_no_exp_mark: "is_digit c \<Longrightarrow> \<not> is_exp_mark c"
  by (auto simp: is_digit_def is_exp_mark_def)

lemma point_not_digit: "\<not> is_digit CHR ''.''" "\<not> is_exp_mark CHR ''.''"
  by (simp_all add: is_digit_def is_exp_mark_def)

lemma sign_not_digit: "is_digit c \<Longrightarrow> c \<noteq> CHR ''-'' \<and> c \<noteq> CHR ''+''"
  by (auto simp: is_digit_def)

lemma dec_format_body:
  "dec_format (m, k) = (if m < 0 then ''-'' else []) @ dec_body (nat \<bar>m\<bar>) k"
  by (simp add: dec_format_def dec_body_def Let_def)

lemma fixed_parse_body: "fixed_parse (dec_body n k) = Some (n, k)"
proof (cases "k = 0")
  case True
  have all: "\<forall>c \<in> set (str_nat n). is_digit c"
    using str_nat_digits[of n] by (simp only: list_all_iff)
  have t: "takeWhile is_digit (str_nat n) = str_nat n"
    using all by (simp only: takeWhile_eq_all_conv)
  have d: "dropWhile is_digit (str_nat n) = []"
    using all by (simp only: dropWhile_eq_Nil_conv)
  have v: "digits_value 0 (str_nat n) = Some n"
    by (simp only: digits_value_str_nat) simp
  have b: "dec_body n k = str_nat n"
    using True by (simp add: dec_body_def del: str_nat.simps)
  show ?thesis
    unfolding b fixed_parse_def t d
    using True by (simp add: v str_nat_nonempty del: str_nat.simps)
next
  case False
  let ?q = "n div 10 ^ k" and ?p = "pad_digits k (n mod 10 ^ k)"
  have all: "\<forall>c \<in> set (str_nat ?q). is_digit c"
    using str_nat_digits[of ?q] by (simp only: list_all_iff)
  have t: "takeWhile is_digit (str_nat ?q @ CHR ''.'' # ?p) = str_nat ?q"
    using all by (simp add: takeWhile_append2 point_not_digit del: str_nat.simps)
  have d: "dropWhile is_digit (str_nat ?q @ CHR ''.'' # ?p) = CHR ''.'' # ?p"
    using all by (simp add: dropWhile_append2 point_not_digit del: str_nat.simps)
  have "digits_value 0 (str_nat ?q @ ?p) = Some (?q * 10 ^ k + n mod 10 ^ k)"
    by (simp add: digits_value_append digits_value_str_nat digits_value_pad
          del: str_nat.simps pad_digits.simps)
  also have "?q * 10 ^ k + n mod 10 ^ k = n"
    by (rule div_mult_mod_eq)
  finally have v: "digits_value 0 (str_nat ?q @ ?p) = Some n" .
  have b: "dec_body n k = str_nat ?q @ CHR ''.'' # ?p"
    using False by (simp add: dec_body_def del: str_nat.simps)
  show ?thesis
    unfolding b fixed_parse_def t d
    by (simp add: v pad_digits_digits pad_digits_length str_nat_nonempty
          del: str_nat.simps pad_digits.simps)
qed

lemma body_no_exp_mark: "\<forall>c \<in> set (dec_body n k). \<not> is_exp_mark c"
  using str_nat_digits[of "n div 10 ^ k"] pad_digits_digits[of k "n mod 10 ^ k"]
  by (auto simp: dec_body_def list_all_iff point_not_digit dest: digit_no_exp_mark
           simp del: str_nat.simps pad_digits.simps)

lemma unsigned_parse_body: "unsigned_parse (dec_body n k) = Some (n, k)"
proof -
  have tw: "takeWhile (\<lambda>c. \<not> is_exp_mark c) (dec_body n k) = dec_body n k"
    using body_no_exp_mark[of n k] by simp
  have dw: "dropWhile (\<lambda>c. \<not> is_exp_mark c) (dec_body n k) = []"
    using body_no_exp_mark[of n k] by simp
  show ?thesis
    unfolding unsigned_parse_def tw dw by (simp add: fixed_parse_body)
qed

lemma body_starts_with_digit: "\<exists>c r. dec_body n k = c # r \<and> is_digit c"
proof -
  obtain c cs where s: "str_nat (n div 10 ^ k) = c # cs"
    using str_nat_nonempty[of "n div 10 ^ k"] by (cases "str_nat (n div 10 ^ k)") auto
  with str_nat_digits[of "n div 10 ^ k"] have "is_digit c" by simp
  with s show ?thesis by (auto simp: dec_body_def simp del: str_nat.simps)
qed

lemma dec_parse_format: "dec_parse (dec_format (m, k)) = Some (m, k)"
proof (cases "m < 0")
  case True
  then show ?thesis
    by (simp add: dec_format_body dec_parse_def unsigned_parse_body)
next
  case False
  from body_starts_with_digit[of "nat \<bar>m\<bar>" k] obtain c r
    where b: "dec_body (nat \<bar>m\<bar>) k = c # r" and c: "is_digit c" by blast
  from sign_not_digit[OF c] have "dec_parse (c # r) =
      map_option (\<lambda>x. (int (fst x), snd x)) (unsigned_parse (c # r))"
    by (simp add: dec_parse_def)
  with False b unsigned_parse_body[of "nat \<bar>m\<bar>" k] show ?thesis
    by (simp add: dec_format_body)
qed

lemma dec_val_norm: "dec_val (dec_norm x) = dec_val x"
proof (induction x rule: dec_norm.induct)
  case (1 m)
  then show ?case by simp
next
  case (2 m k)
  show ?case
  proof (cases "m mod 10 = 0")
    case True
    then have m: "m = 10 * (m div 10)" by presburger
    have "dec_val (m, Suc k) = of_int (10 * (m div 10)) / (10 * 10 ^ k)"
      using m by (simp add: dec_val_def)
    also have "\<dots> = dec_val (m div 10, k)"
      by (simp add: dec_val_def)
    finally show ?thesis using True 2 by simp
  next
    case False
    then show ?thesis by simp
  qed
qed

lemma dec_val_add: "dec_val (dec_add x y) = dec_val x + dec_val y"
proof -
  obtain m1 k1 m2 k2 where x: "x = (m1, k1)" and y: "y = (m2, k2)"
    by (cases x, cases y) auto
  let ?k = "max k1 k2"
  have p1: "(10::rat) ^ ?k = 10 ^ (?k - k1) * 10 ^ k1"
    by (simp add: power_add[symmetric])
  have p2: "(10::rat) ^ ?k = 10 ^ (?k - k2) * 10 ^ k2"
    by (simp add: power_add[symmetric])
  have "dec_val (dec_add x y) =
      (of_int m1 * 10 ^ (?k - k1) + of_int m2 * 10 ^ (?k - k2)) / 10 ^ ?k"
    by (simp add: dec_add_def dec_val_def x y Let_def)
  also have "\<dots> = of_int m1 * 10 ^ (?k - k1) / 10 ^ ?k + of_int m2 * 10 ^ (?k - k2) / 10 ^ ?k"
    by (simp add: add_divide_distrib)
  also have "of_int m1 * 10 ^ (?k - k1) / (10::rat) ^ ?k = of_int m1 / 10 ^ k1"
    by (subst p1) simp
  also have "of_int m2 * 10 ^ (?k - k2) / (10::rat) ^ ?k = of_int m2 / 10 ^ k2"
    by (subst p2) simp
  finally show ?thesis by (simp add: dec_val_def x y)
qed

lemma dec_val_neg: "dec_val (- m, k) = - dec_val (m, k)"
  by (simp add: dec_val_def)

section \<open>Float increments\<close>

lemma magnitude_neg:
  "magnitude a \<Longrightarrow>
   float_repr (float_neg a) = CHR ''-'' # float_repr a \<and> float_neg (float_neg a) = a"
proof -
  assume m: "magnitude a"
  obtain t where a: "a = PyFloat t" by (cases a)
  from m a obtain c r where t: "t = c # r" and c: "is_digit c"
    by (auto simp: magnitude_def split: list.splits)
  from c have "c \<noteq> CHR ''-''" "c \<noteq> CHR ''n''" by (auto simp: is_digit_def)
  with a t show ?thesis by simp
qed

lemma dec_parse_neg:
  "magnitude a \<Longrightarrow> dec_parse (float_repr a) = Some (m, k) \<Longrightarrow>
   dec_parse (float_repr (float_neg a)) = Some (- m, k)"
proof -
  assume mg: "magnitude a" and p: "dec_parse (float_repr a) = Some (m, k)"
  from mg obtain c r where t: "float_repr a = c # r" and c: "is_digit c"
    by (auto simp: magnitude_def split: list.splits)
  from sign_not_digit[OF c] p t
  have "map_option (\<lambda>x. (int (fst x), snd x)) (unsigned_parse (c # r)) = Some (m, k)"
    by (simp add: dec_parse_def)
  then obtain n where n: "unsigned_parse (c # r) = Some (n, k)" and m: "m = int n"
    by auto
  from magnitude_neg[OF mg] t have "float_repr (float_neg a) = CHR ''-'' # c # r" by simp
  then show ?thesis by (simp add: dec_parse_def n m)
qed

lemma ref_incrbyfloat_string:
  "str_encode key = Inr kb \<Longrightarrow> entries s kb = Some (EString b) \<Longrightarrow>
   dec_parse b = Some x \<Longrightarrow> dec_parse (float_repr a) = Some y \<Longrightarrow>
   snd (incrbyfloat (Inr (redis_ref dr fo)) key a s) =
     put kb (EString (dec_format (dec_norm (dec_add x y)))) s"
  by (simp add: incrbyfloat_def redis_ref_def ref_incrbyfloat_def with_key_def Let_def)

lemma ref_decrbyfloat_string:
  "str_encode key = Inr kb \<Longrightarrow> entries s kb = Some (EString b) \<Longrightarrow>
   dec_parse b = Some x \<Longrightarrow> dec_parse (float_repr (float_neg a)) = Some y \<Longrightarrow>
   snd (decrbyfloat (Inr (redis_ref dr fo)) key a s) =
     put kb (EString (dec_format (dec_norm (dec_add x y)))) s"
  by (simp add: decrbyfloat_def redis_ref_def ref_incrbyfloat_def with_key_def Let_def)

lemma dec_parse_stored: "dec_parse (dec_format (dec_norm z)) = Some (dec_norm z)"
  by (cases "dec_norm z") (simp add: dec_parse_format)

text \<open>
  Claim C9. For every connection, key and amount \<open>a\<close>, \<^verbatim>\<open>decrbyfloat(key, a)\<close> makes the
  one store call \<^verbatim>\<open>incrbyfloat(key, -a)\<close>, the call that \<^verbatim>\<open>incrbyfloat(key, -a)\<close> makes,
  with the same effect on the store; \<^verbatim>\<open>incrbyfloat(key, a)\<close> makes the call with \<open>a\<close>. For
  a non-negative amount the sign is inverted: \<open>-a\<close> prints as \<open>a\<close> with a minus before it.
  So on the reference store, where the key holds the number \<open>x\<close> and the amount is the
  number \<open>y\<close>, the key holds \<open>x + y\<close> after \<^verbatim>\<open>incrbyfloat(k, a)\<close> and is back at \<open>x\<close>
  after the following \<^verbatim>\<open>decrbyfloat(k, a)\<close>. The reference store adds exactly: the
  precision of the claim is that of the store's arithmetic, which is not modelled.
\<close>

theorem decrbyfloat_negates:
  "snd (decrbyfloat (Inr (traced r)) key a (calls, s)) =
     snd (incrbyfloat (Inr (traced r)) key (float_neg a) (calls, s)) \<and>
   fst (snd (decrbyfloat (Inr (traced r)) key a (calls, s))) = calls @ [INCRBYFLOAT key (float_neg a)] \<and>
   fst (snd (incrbyfloat (Inr (traced r)) key a (calls, s))) = calls @ [INCRBYFLOAT key a] \<and>
   (magnitude a \<longrightarrow>
      float_repr (float_neg a) = CHR ''-'' # float_repr a \<and> float_neg (float_neg a) = a) \<and>
   (str_encode key = Inr kb \<and> entries st kb = Some (EString b) \<and> dec_parse b = Some x \<and>
    magnitude a \<and> dec_parse (float_repr a) = Some y \<longrightarrow>
      (\<exists>b1 x1. entries (snd (incrbyfloat (Inr (redis_ref dr fo)) key a st)) kb =
                 Some (EString b1) \<and>
               dec_parse b1 = Some x1 \<and> dec_val x1 = dec_val x + dec_val y) \<and>
      (\<exists>b2 x2. entries (snd (decrbyfloat (Inr (redis_ref dr fo)) key a
                                (snd (incrbyfloat (Inr (redis_ref dr fo)) key a st)))) kb =
                 Some (EString b2) \<and>
               dec_parse b2 = Some x2 \<and> dec_val x2 = dec_val x))"
proof -
  have gen: "snd (decrbyfloat (Inr (traced r)) key a (calls, s)) =
     snd (incrbyfloat (Inr (traced r)) key (float_neg a) (calls, s)) \<and>
   fst (snd (decrbyfloat (Inr (traced r)) key a (calls, s))) = calls @ [INCRBYFLOAT key (float_neg a)] \<and>
   fst (snd (incrbyfloat (Inr (traced r)) key a (calls, s))) = calls @ [INCRBYFLOAT key a]"
    by (auto simp: decrbyfloat_def incrbyfloat_def traced_sel logged_pair snd_except
           split: prod.splits sum.splits)
  have rt: "(\<exists>b1 x1. entries (snd (incrbyfloat (Inr (redis_ref dr fo)) key a st)) kb =
                 Some (EString b1) \<and>
               dec_parse b1 = Some x1 \<and> dec_val x1 = dec_val x + dec_val y) \<and>
      (\<exists>b2 x2. entries (snd (decrbyfloat (Inr (redis_ref dr fo)) key a
                                (snd (incrbyfloat (Inr (redis_ref dr fo)) key a st)))) kb =
                 Some (EString b2) \<and>
               dec_parse b2 = Some x2 \<and> dec_val x2 = dec_val x)"
    if k: "str_encode key = Inr kb" and e: "entries st kb = Some (EString b)"
      and px: "dec_parse b = Some x" and mg: "magnitude a"
      and py: "dec_parse (float_repr a) = Some y"
  proof -
    let ?x1 = "dec_norm (dec_add x y)"
    let ?b1 = "dec_format ?x1"
    let ?s1 = "snd (incrbyfloat (Inr (redis_ref dr fo)) key a st)"
    obtain m j where y: "y = (m, j)" by (cases y)
    have s1: "?s1 = put kb (EString ?b1) st"
      by (rule ref_incrbyfloat_string[OF k e px py])
    have e1: "entries ?s1 kb = Some (EString ?b1)"
      unfolding s1 by (rule entries_put)
    have p1: "dec_parse ?b1 = Some ?x1" by (rule dec_parse_stored)
    have v1: "dec_val ?x1 = dec_val x + dec_val y"
      by (simp add: dec_val_norm dec_val_add)
    have pn: "dec_parse (float_repr (float_neg a)) = Some (- m, j)"
      using dec_parse_neg[OF mg] py y by simp
    let ?x2 = "dec_norm (dec_add ?x1 (- m, j))"
    let ?b2 = "dec_format ?x2"
    let ?s2 = "snd (decrbyfloat (Inr (redis_ref dr fo)) key a ?s1)"
    have s2: "?s2 = put kb (EString ?b2) ?s1"
      by (rule ref_decrbyfloat_string[OF k e1 p1 pn])
    have e2: "entries ?s2 kb = Some (EString ?b2)"
      unfolding s2 by (rule entries_put)
    have p2: "dec_parse ?b2 = Some ?x2" by (rule dec_parse_stored)
    have v2: "dec_val ?x2 = dec_val x"
      by (simp add: dec_val_norm dec_val_add v1 y dec_val_neg)
    from e1 p1 v1 e2 p2 v2 show ?thesis by blast
  qed
  from gen magnitude_neg[of a] rt show ?thesis by blast
qed

text \<open>With \<^verbatim>\<open>10.5\<close> stored, adding \<^verbatim>\<open>0.1\<close> leaves \<^verbatim>\<open>10.6\<close>, and taking \<^verbatim>\<open>0.1\<close> off again
  leaves \<^verbatim>\<open>10.5\<close>.\<close>

theorem decrbyfloat_negates_witness:
  "magnitude (PyFloat ''0.1'') \<and>
   str_encode (u ''k'') = Inr ''k'' \<and>
   entries (put ''k'' (EString ''10.5'') empty_store) ''k'' = Some (EString ''10.5'') \<and>
   dec_parse ''10.5'' = Some (105, 1) \<and>
   dec_parse (float_repr (PyFloat ''0.1'')) = Some (1, 1) \<and>
   float_repr (float_neg (PyFloat ''0.1'')) = CHR ''-'' # float_repr (PyFloat ''0.1'') \<and>
   (\<exists>b2 x2. entries (snd (decrbyfloat (Inr (redis_ref False sample_float_ops)) (u ''k'')
                             (PyFloat ''0.1'')
                             (snd (incrbyfloat (Inr (redis_ref False sample_float_ops)) (u ''k'')
                                     (PyFloat ''0.1'')
                                     (put ''k'' (EString ''10.5'') empty_store))))) ''k'' =
              Some (EString b2) \<and>
            dec_parse b2 = Some x2 \<and> dec_val x2 = dec_val (105, 1))"
proof -
  have 0: "magnitude (PyFloat ''0.1'')" by (simp add: magnitude_def is_digit_def)
  have 1: "str_encode (u ''k'') = Inr ''k''" by (rule str_encode_k)
  have 2: "entries (put ''k'' (EString ''10.5'') empty_store) ''k'' = Some (EString ''10.5'')"
    by (rule entries_put)
  have 3: "dec_parse ''10.5'' = Some (105, 1)"
    by (simp add: dec_parse_def unsigned_parse_def fixed_parse_def is_digit_def is_exp_mark_def)
  have 4: "dec_parse (float_repr (PyFloat ''0.1'')) = Some (1, 1)"
    by (simp add: dec_parse_def unsigned_parse_def fixed_parse_def is_digit_def is_exp_mark_def)
  from decrbyfloat_negates[of "redis_ref False sample_float_ops" "u ''k''" "PyFloat ''0.1''" "[]"
      empty_store "''k''" "put ''k'' (EString ''10.5'') empty_store" "''10.5''" "(105, 1)" "(1, 1)"
      False sample_float_ops] 0 1 2 3 4
  show ?thesis by blast
qed

text \<open>The texts of that run.\<close>

lemma incr_decr_texts:
  "entries (snd (incrbyfloat (Inr (redis_ref False sample_float_ops)) (u ''k'') (PyFloat ''0.1'')
                   (put ''k'' (EString ''10.5'') empty_store))) ''k'' = Some (EString ''10.6'') \<and>
   entries (snd (decrbyfloat (Inr (redis_ref False sample_float_ops)) (u ''k'') (PyFloat ''0.1'')
                   (put ''k'' (EString ''10.6'') empty_store))) ''k'' = Some (EString ''10.5'')"
proof -
  have 3: "dec_parse ''10.5'' = Some (105, 1)" "dec_parse ''10.6'' = Some (106, 1)"
    "dec_parse ''0.1'' = Some (1, 1)" "dec_parse ''-0.1'' = Some (- 1, 1)"
    by (simp_all add: dec_parse_def unsigned_parse_def fixed_parse_def is_digit_def is_exp_mark_def)
  have 5: "dec_format (dec_norm (dec_add (105, 1) (1, 1))) = ''10.6''"
    "dec_format (dec_norm (dec_add (106, 1) (- 1, 1))) = ''10.5''"
    by (simp_all add: dec_add_def dec_format_def digit_char_def)
  show ?thesis
    using 5
    by (simp add: ref_incrbyfloat_string[OF str_encode_k entries_put 3(1)]
          ref_decrbyfloat_string[OF str_encode_k entries_put 3(2)] 3 entries_put)
qed

end
